theory Spec2Isabelle
  imports Main "HOL-Library.Word"
begin

section \<open>Errors, keys and the array substrate\<close>

text \<open>
  The classes of \<^verbatim>\<open>awkward/array/indexed.py\<close> and \<^verbatim>\<open>awkward/array/virtual.py\<close>
  are views over one-dimensional numpy arrays. An array is a list, an index value is an
  \<open>int\<close> (the index dtype is a signed integer), and every exception the code or the
  indexing underneath it can raise is a value of \<open>error\<close>. A method that mutates its
  object returns the raised error, if any, together with the object as it is afterwards.
\<close>

datatype error =
    IndexError
  | NameError string
  | TypeError
  | ValueError_readonly
  | ValueError_shape "nat list" "nat list"
  | ValueError_size nat nat
  | ValueError_broadcast
  | ValueError_setseq
  | ValueError_buffer
  | ValueError_step

text \<open>
  The subscript \<open>where\<close> of \<open>__getitem__\<close> and \<open>__setitem__\<close>: a column name
  (\<open>_isstring(where)\<close> holds) or a position. A position is an integer, the full slice
  \<open>:\<close>, or an integer array (fancy indexing); slices with bounds and tuples with a
  non-empty \<open>tail\<close> are outside the model. Which branch of a method a subscript takes
  is decided by \<open>isstring\<close> below, not by its constructor.
\<close>

datatype selector = At int | All | Fancy "int list"

datatype key = Name string | Pos selector

text \<open>The right-hand side \<open>what\<close> of an assignment: a scalar or a plain array.\<close>

datatype 'a operand = Scalar 'a | NdArray "'a list"

text \<open>The result of indexing a one-dimensional array: a scalar or an array.\<close>

datatype 'a sel = One 'a | Many "'a list"

text \<open>
  An index into a sequence of length \<open>n\<close>: a negative index counts from the end, and
  an index outside \<open>[-n, n)\<close> raises \<open>IndexError\<close>.
\<close>

definition norm_index :: "nat \<Rightarrow> int \<Rightarrow> error + nat" where
  "norm_index n i =
     (if 0 \<le> i \<and> i < int n then Inr (nat i)
      else if i < 0 \<and> - int n \<le> i then Inr (nat (i + int n))
      else Inl IndexError)"

fun norm_all :: "nat \<Rightarrow> int list \<Rightarrow> error + nat list" where
  "norm_all n [] = Inr []"
| "norm_all n (i # is) =
     (case norm_index n i of
        Inl e \<Rightarrow> Inl e
      | Inr k \<Rightarrow> (case norm_all n is of Inl e \<Rightarrow> Inl e | Inr ks \<Rightarrow> Inr (k # ks)))"

definition np_getitem :: "'a list \<Rightarrow> int \<Rightarrow> error + 'a" where
  "np_getitem xs i =
     (case norm_index (length xs) i of Inl e \<Rightarrow> Inl e | Inr k \<Rightarrow> Inr (xs ! k))"

definition np_take :: "'a list \<Rightarrow> int list \<Rightarrow> error + 'a list" where
  "np_take xs is =
     (case norm_all (length xs) is of Inl e \<Rightarrow> Inl e | Inr ks \<Rightarrow> Inr (map ((!) xs) ks))"

definition np_select :: "'a list \<Rightarrow> selector \<Rightarrow> error + 'a sel" where
  "np_select xs w =
     (case w of
        At i \<Rightarrow> (case np_getitem xs i of Inl e \<Rightarrow> Inl e | Inr x \<Rightarrow> Inr (One x))
      | All \<Rightarrow> Inr (Many xs)
      | Fancy is \<Rightarrow> (case np_take xs is of Inl e \<Rightarrow> Inl e | Inr ys \<Rightarrow> Inr (Many ys)))"

text \<open>
  Assignment through an integer array writes the values one after the other, so the last
  value written to a repeated position stays.
\<close>

fun put_seq :: "'a list \<Rightarrow> nat list \<Rightarrow> 'a list \<Rightarrow> 'a list" where
  "put_seq xs (k # ks) (v # vs) = put_seq (xs[k := v]) ks vs"
| "put_seq xs _ _ = xs"

text \<open>
  The value of an assignment to \<open>n\<close> selected positions: a scalar or an array of length
  one is repeated, an array of length \<open>n\<close> is taken as it is, any other length is a
  shape mismatch.
\<close>

definition np_broadcast :: "nat \<Rightarrow> 'a operand \<Rightarrow> error + 'a list" where
  "np_broadcast n what =
     (case what of
        Scalar v \<Rightarrow> Inr (replicate n v)
      | NdArray vs \<Rightarrow>
          if length vs = n then Inr vs
          else if length vs = 1 then Inr (replicate n (hd vs))
          else Inl ValueError_broadcast)"

text \<open>\<open>xs[j] = what\<close> for the result \<open>j\<close> of an index selection.\<close>

definition np_setitem :: "'a list \<Rightarrow> int sel \<Rightarrow> 'a operand \<Rightarrow> error + 'a list" where
  "np_setitem xs j what =
     (case j of
        One i \<Rightarrow>
          (case norm_index (length xs) i of
             Inl e \<Rightarrow> Inl e
           | Inr k \<Rightarrow>
               (case what of
                  Scalar v \<Rightarrow> Inr (xs[k := v])
                | NdArray vs \<Rightarrow>
                    if length vs = 1 then Inr (xs[k := hd vs]) else Inl ValueError_setseq))
      | Many is \<Rightarrow>
          (case np_broadcast (length is) what of
             Inl e \<Rightarrow> Inl e
           | Inr vs \<Rightarrow>
               (case norm_all (length xs) is of
                  Inl e \<Rightarrow> Inl e
                | Inr ks \<Rightarrow> Inr (put_seq xs ks vs))))"

text \<open>
  Modelled from the spec: the predicate \<open>_isstring\<close> of \<^verbatim>\<open>awkward/array/base.py\<close>, which is
  not among the sources. It tells column-name indexing from positional indexing: it
  holds of a string, and of a sequence all of whose elements are strings, which an empty
  integer array is. An integer, a slice and a non-empty integer array are positions.
\<close>

definition isstring :: "key \<Rightarrow> bool" where
  "isstring k =
     (case k of
        Name s \<Rightarrow> True
      | Pos w \<Rightarrow> (case w of Fancy is \<Rightarrow> is = [] | _ \<Rightarrow> False))"

text \<open>The values of a selection as an array.\<close>

definition sel_list :: "'a sel \<Rightarrow> 'a list" where
  "sel_list t = (case t of One x \<Rightarrow> [x] | Many xs \<Rightarrow> xs)"

text \<open>\<open>xs[where]\<close> on a plain array: a string subscript raises.\<close>

definition np_index :: "'a list \<Rightarrow> key \<Rightarrow> error + 'a sel" where
  "np_index xs k = (case k of Name s \<Rightarrow> Inl IndexError | Pos w \<Rightarrow> np_select xs w)"

text \<open>\<open>xs[where] = what\<close> on a plain array.\<close>

definition np_assign :: "'a list \<Rightarrow> key \<Rightarrow> 'a operand \<Rightarrow> error + 'a list" where
  "np_assign xs k what =
     (case k of
        Name s \<Rightarrow> Inl IndexError
      | Pos w \<Rightarrow>
          (case w of
             At i \<Rightarrow> np_setitem xs (One i) what
           | All \<Rightarrow> np_broadcast (length xs) what
           | Fancy is \<Rightarrow> np_setitem xs (Many is) what))"

text \<open>
  What belongs to the content array and not to the views is a parameter. \<open>getfield\<close>
  is the column read \<open>content[name]\<close> (it may raise, as a plain array without fields
  does); \<open>putfield\<close> says what the content is after its column has been overwritten
  through the view that \<open>content[name]\<close> returns; \<open>is_masked\<close> says which elements
  of the content are the missing value \<open>numpy.ma.masked\<close>, as an element under the mask
  of a \<open>numpy.ma\<close> array or a missing element of a nested IndexedMaskedArray is.
\<close>

record 'a fields =
  getfield :: "'a list \<Rightarrow> string \<Rightarrow> error + 'a list"
  putfield :: "'a list \<Rightarrow> string \<Rightarrow> 'a list \<Rightarrow> 'a list"
  is_masked :: "'a \<Rightarrow> bool"

text \<open>
  A plain numpy array has no fields (a string subscript raises) and no missing elements.
\<close>

definition plain_fields :: "'a fields" where
  "plain_fields =
     \<lparr>getfield = (\<lambda>xs name. Inl IndexError), putfield = (\<lambda>xs name col. xs),
      is_masked = (\<lambda>v. False)\<rparr>"

text \<open>
  An array without fields whose elements may be missing: \<open>None\<close> is the missing
  element, as in a nested IndexedMaskedArray.
\<close>

definition optional_fields :: "'a option fields" where
  "optional_fields =
     \<lparr>getfield = (\<lambda>xs name. Inl IndexError), putfield = (\<lambda>xs name col. xs),
      is_masked = (\<lambda>v. v = None)\<rparr>"

text \<open>
  \<open>self._content[where]\<close> in a string branch: the column of that name, or, for a
  subscript that is an array, the selection, which is empty for the empty array.
  \<open>column_store\<close> is the content after the array that \<open>column\<close> returned has been
  overwritten with \<open>col\<close>: a column and a slice are views of the content, the
  selection by an integer array is a copy.
\<close>

definition column :: "'a fields \<Rightarrow> 'a list \<Rightarrow> key \<Rightarrow> error + 'a list" where
  "column cols xs k =
     (case k of
        Name s \<Rightarrow> getfield cols xs s
      | Pos w \<Rightarrow> (case np_select xs w of Inl e \<Rightarrow> Inl e | Inr r \<Rightarrow> Inr (sel_list r)))"


section \<open>IndexedArray\<close>

text \<open>
  A view holds its index and its content by reference. The two fields of the record are
  the two arrays as they read; \<open>sharing\<close> says whether they are one array in memory,
  as in \<open>IndexedArray(x, x)\<close>. \<open>Shared to_index of_index\<close> says how an element of
  the one array reads as an index value and how an index value reads as an element
  (both are the identity when the elements are integers); a write through either field
  is then a write to both.
\<close>

record 'a IndexedArray =
  index :: "int list"
  content :: "'a list"
  writeable :: bool

record 'a IndexedMaskedArray = "'a IndexedArray" +
  maskedwhen :: int

datatype 'a sharing = Distinct | Shared "'a \<Rightarrow> int" "int \<Rightarrow> 'a"

definition store_content ::
  "'a sharing \<Rightarrow> ('a, 'z) IndexedArray_scheme \<Rightarrow> 'a list \<Rightarrow> ('a, 'z) IndexedArray_scheme" where
  "store_content sh a c =
     (case sh of
        Distinct \<Rightarrow> a\<lparr>content := c\<rparr>
      | Shared to_index of_index \<Rightarrow> a\<lparr>content := c, index := map to_index c\<rparr>)"

definition store_index ::
  "'a sharing \<Rightarrow> ('a, 'z) IndexedArray_scheme \<Rightarrow> int list \<Rightarrow> ('a, 'z) IndexedArray_scheme" where
  "store_index sh a ix =
     (case sh of
        Distinct \<Rightarrow> a\<lparr>index := ix\<rparr>
      | Shared to_index of_index \<Rightarrow> a\<lparr>index := ix, content := map of_index ix\<rparr>)"

text \<open>
  A ByteIndexedArray: the content is a flat buffer of bytes, the index values are byte
  offsets, and the dtype says how many bytes make one value (\<open>itemsize\<close>) and how they
  are read as a value (\<open>decode\<close>, the reinterpretation that numpy does).
\<close>

type_synonym byte = "8 word"

record 'v dtype =
  itemsize :: nat
  decode :: "byte list \<Rightarrow> 'v"

record 'v ByteIndexedArray = "byte IndexedArray" +
  dtype :: "'v dtype"

text \<open>
  A UnionArray holds its contents in a tuple; the arrays in it are written in place.
\<close>

record 'a UnionArray =
  tags :: "int list"
  union_index :: "int list"
  contents :: "'a list list"
  union_writeable :: bool

text \<open>What a read returns: the missing value, a scalar, an array, or a new view.\<close>

datatype 'a result =
    Masked
  | Item 'a
  | Arr "'a list"
  | IndexedView "'a IndexedArray"
  | IndexedMaskedView "'a IndexedMaskedArray"
  | UnionView "'a UnionArray"
  | ByteIndexedView "'a ByteIndexedArray"

text \<open>
  \<open>content[j]\<close> for the result \<open>j\<close> of an index selection, the element or elements as
  the content holds them.
\<close>

definition content_at :: "'a list \<Rightarrow> int sel \<Rightarrow> error + 'a result" where
  "content_at xs j =
     (case j of
        One i \<Rightarrow> (case np_getitem xs i of Inl e \<Rightarrow> Inl e | Inr v \<Rightarrow> Inr (Item v))
      | Many is \<Rightarrow> (case np_take xs is of Inl e \<Rightarrow> Inl e | Inr vs \<Rightarrow> Inr (Arr vs)))"

definition IndexedArray_getitem ::
  "'a fields \<Rightarrow> 'a IndexedArray \<Rightarrow> key \<Rightarrow> error + 'a result" where
  "IndexedArray_getitem cols a k =
     (if isstring k then
        (case column cols (content a) k of
           Inl e \<Rightarrow> Inl e
         | Inr c \<Rightarrow> Inr (IndexedView \<lparr>index = index a, content = c, writeable = writeable a\<rparr>))
      else
        (case np_index (index a) k of
           Inl e \<Rightarrow> Inl e
         | Inr j \<Rightarrow> content_at (content a) j))"



section \<open>IndexedMaskedArray\<close>

text \<open>
  The right-hand side of an assignment to an IndexedMaskedArray: the missing marker
  \<open>numpy.ma.masked\<close>, or a scalar or plain array that carries no marker. The branches
  of \<open>__setitem__\<close> for Python sequences and for masked arrays are outside the model.
\<close>

datatype 'a moperand = MaskedConstant | Plain "'a operand"

text \<open>
  \<open>self._content[(self._index[head],) + tail]\<close> for an integer \<open>head\<close> and an empty
  \<open>tail\<close>: the element of the content, which is \<open>numpy.ma.masked\<close> itself when
  the content holds a missing value there.
\<close>

definition element_at :: "'a fields \<Rightarrow> 'a list \<Rightarrow> int \<Rightarrow> error + 'a result" where
  "element_at cols xs j =
     (case np_getitem xs j of
        Inl e \<Rightarrow> Inl e
      | Inr v \<Rightarrow> if is_masked cols v then Inr Masked else Inr (Item v))"

definition IndexedMaskedArray_getitem ::
  "'a fields \<Rightarrow> 'a IndexedMaskedArray \<Rightarrow> key \<Rightarrow> error + 'a result" where
  "IndexedMaskedArray_getitem cols a k =
     (if isstring k then
        (case column cols (content a) k of
           Inl e \<Rightarrow> Inl e
         | Inr c \<Rightarrow>
             Inr (IndexedMaskedView
               \<lparr>index = index a, content = c, writeable = writeable a,
                maskedwhen = maskedwhen a\<rparr>))
      else
        (case k of
           Pos (At head) \<Rightarrow>
             (case np_getitem (index a) head of
                Inl e \<Rightarrow> Inl e
              | Inr j \<Rightarrow>
                  if j = maskedwhen a then Inr Masked else element_at cols (content a) j)
         | _ \<Rightarrow>
             (case np_index (index a) k of
                Inl e \<Rightarrow> Inl e
              | Inr r \<Rightarrow>
                  Inr (IndexedMaskedView
                    \<lparr>index = sel_list r, content = content a, writeable = writeable a,
                     maskedwhen = maskedwhen a\<rparr>))))"

text \<open>\<open>self._content[(self._index[head],) + tail] = v\<close> with an empty \<open>tail\<close>.\<close>

definition content_put ::
  "'a sharing \<Rightarrow> 'a IndexedMaskedArray \<Rightarrow> key \<Rightarrow> 'a operand
     \<Rightarrow> error option \<times> 'a IndexedMaskedArray" where
  "content_put sh a head v =
     (case np_index (index a) head of
        Inl e \<Rightarrow> (Some e, a)
      | Inr j \<Rightarrow>
          (case np_setitem (content a) j v of
             Inl e \<Rightarrow> (Some e, a)
           | Inr c \<Rightarrow> (None, store_content sh a c)))"

text \<open>\<open>self._index[head] = self._maskedwhen\<close>\<close>

definition index_mask ::
  "'a sharing \<Rightarrow> 'a IndexedMaskedArray \<Rightarrow> key \<Rightarrow> error option \<times> 'a IndexedMaskedArray" where
  "index_mask sh a head =
     (case np_assign (index a) head (Scalar (maskedwhen a)) of
        Inl e \<Rightarrow> (Some e, a)
      | Inr ix \<Rightarrow> (None, store_index sh a ix))"

text \<open>
  The last array branch of \<open>IndexedMaskedArray.__setitem__\<close>:
  \<^verbatim>\<open>
  index = self._index[head]
  only = (index != self._maskedwhen)
  self._content[(index[only],) + tail] = what[only]
  \<close>
  With an integer \<open>head\<close>, \<open>index\<close> and \<open>only\<close> are scalars: \<open>index[only]\<close> has one
  element or none and \<open>what[only]\<close> has one axis more than \<open>what\<close>. An empty \<open>what\<close>
  on a masked position assigns nothing to nothing and succeeds; any other assignment
  of an array of a length other than one raises, for no such array can be broadcast.
  Otherwise \<open>only\<close> is a boolean mask of the length of \<open>index\<close>, and \<open>what[only]\<close>
  raises unless \<open>what\<close> has that length.
\<close>

definition markerless_put ::
  "'a sharing \<Rightarrow> 'a IndexedMaskedArray \<Rightarrow> key \<Rightarrow> 'a list
     \<Rightarrow> error option \<times> 'a IndexedMaskedArray" where
  "markerless_put sh a head vs =
     (case np_index (index a) head of
        Inl e \<Rightarrow> (Some e, a)
      | Inr (One j) \<Rightarrow>
          if j = maskedwhen a \<and> vs = [] then (None, a) else (Some ValueError_broadcast, a)
      | Inr (Many js) \<Rightarrow>
          if length vs \<noteq> length js then (Some IndexError, a)
          else
            (case np_setitem (content a)
                    (Many (map fst (filter (\<lambda>(j, v). j \<noteq> maskedwhen a) (zip js vs))))
                    (NdArray (map snd (filter (\<lambda>(j, v). j \<noteq> maskedwhen a) (zip js vs)))) of
               Inl e \<Rightarrow> (Some e, a)
             | Inr c \<Rightarrow> (None, store_content sh a c)))"

text \<open>
  \<open>IndexedMaskedArray.__setitem__\<close>. The string branch reads the locals \<open>head\<close> and
  \<open>tail\<close> before they are assigned: the first of them, \<open>head\<close>, raises
  (\<open>UnboundLocalError\<close>, a \<open>NameError\<close>).
\<close>

definition IndexedMaskedArray_setitem ::
  "'a sharing \<Rightarrow> 'a fields \<Rightarrow> 'a IndexedMaskedArray \<Rightarrow> key \<Rightarrow> 'a moperand
     \<Rightarrow> error option \<times> 'a IndexedMaskedArray" where
  "IndexedMaskedArray_setitem sh cols a k what =
     (if isstring k then (Some (NameError ''head''), a)
      else if \<not> writeable a then (Some ValueError_readonly, a)
      else
        (case what of
           MaskedConstant \<Rightarrow> index_mask sh a k
         | Plain (NdArray vs) \<Rightarrow>
             if length vs = 1 then content_put sh a k (Scalar (vs ! 0))
             else markerless_put sh a k vs
         | Plain (Scalar v) \<Rightarrow> content_put sh a k (Scalar v)))"

section \<open>UnionArray\<close>

text \<open>The shape of a one-dimensional array.\<close>

definition shape :: "'a list \<Rightarrow> nat list" where
  "shape xs = [length xs]"

text \<open>\<open>numpy.unique\<close>: the distinct values in ascending order; a scalar counts as one value.\<close>

definition unique :: "int list \<Rightarrow> int list" where
  "unique ts = sort (remdups ts)"

text \<open>\<open>tuple(x[where] for x in self._contents)\<close>: the first content that raises ends it.\<close>

fun project_all :: "'a fields \<Rightarrow> 'a list list \<Rightarrow> key \<Rightarrow> error + 'a list list" where
  "project_all cols [] k = Inr []"
| "project_all cols (x # xs) k =
     (case column cols x k of
        Inl e \<Rightarrow> Inl e
      | Inr c \<Rightarrow> (case project_all cols xs k of Inl e \<Rightarrow> Inl e | Inr cs \<Rightarrow> Inr (c # cs)))"

text \<open>
  \<open>UnionArray.__getitem__\<close>. In the string branch the arguments of the constructor are
  evaluated from left to right: the projections of the contents, then the keyword
  argument \<open>writeable=writeable\<close>, a name that is bound nowhere.
\<close>

definition UnionArray_getitem ::
  "'a fields \<Rightarrow> 'a UnionArray \<Rightarrow> key \<Rightarrow> error + 'a result" where
  "UnionArray_getitem cols u k =
     (if isstring k then
        (case project_all cols (contents u) k of
           Inl e \<Rightarrow> Inl e
         | Inr cs \<Rightarrow> Inl (NameError ''writeable''))
      else if shape (tags u) \<noteq> shape (union_index u)
      then Inl (ValueError_shape (shape (tags u)) (shape (union_index u)))
      else
        (case np_index (tags u) k of
           Inl e \<Rightarrow> Inl e
         | Inr t \<Rightarrow>
             (case np_index (union_index u) k of
                Inl e \<Rightarrow> Inl e
              | Inr ix \<Rightarrow>
                  if length (unique (sel_list t)) = 1
                  then
                    (case np_getitem (contents u) (unique (sel_list t) ! 0) of
                       Inl e \<Rightarrow> Inl e
                     | Inr c \<Rightarrow> content_at c ix)
                  else
                    Inr (UnionView
                      \<lparr>tags = sel_list t, union_index = sel_list ix,
                       contents = contents u, union_writeable = union_writeable u\<rparr>))))"

text \<open>
  The loop \<open>for i, tag in enumerate(uniques)\<close> of \<open>UnionArray.__setitem__\<close>:
  \<open>self._contents[tag][(index[selection],) + tail] = value\<close> for each distinct tag in
  turn, where \<open>selection\<close> marks the positions that carry the tag. An error ends the loop
  and keeps what the earlier rounds wrote.
\<close>

fun union_put ::
  "'a list list \<Rightarrow> int list \<Rightarrow> int list \<Rightarrow> int list \<Rightarrow> (int \<Rightarrow> 'a operand)
     \<Rightarrow> error option \<times> 'a list list" where
  "union_put cs [] ts ix val = (None, cs)"
| "union_put cs (tag # rest) ts ix val =
     (case norm_index (length cs) tag of
        Inl e \<Rightarrow> (Some e, cs)
      | Inr k \<Rightarrow>
          (case np_setitem (cs ! k)
                  (Many (map snd (filter (\<lambda>(t, j). t = tag) (zip ts ix)))) (val tag) of
             Inl e \<Rightarrow> (Some e, cs)
           | Inr c \<Rightarrow> union_put (cs[k := c]) rest ts ix val))"

text \<open>
  \<open>UnionArray.__setitem__\<close>. With an integer \<open>head\<close>, \<open>tags\<close> and \<open>index\<close> are scalars:
  \<open>len(tags)\<close> raises \<open>TypeError\<close> and \<open>index[selection]\<close> raises \<open>IndexError\<close>.
\<close>

definition UnionArray_setitem ::
  "'a fields \<Rightarrow> 'a UnionArray \<Rightarrow> key \<Rightarrow> 'a operand \<Rightarrow> error option \<times> 'a UnionArray" where
  "UnionArray_setitem cols u k what =
     (if isstring k then
        (case project_all cols (contents u) k of
           Inl e \<Rightarrow> (Some e, u)
         | Inr cs \<Rightarrow> (Some (NameError ''writeable''), u))
      else if \<not> union_writeable u then (Some ValueError_readonly, u)
      else if shape (tags u) \<noteq> shape (union_index u)
      then (Some (ValueError_shape (shape (tags u)) (shape (union_index u))), u)
      else
        (case np_index (tags u) k of
           Inl e \<Rightarrow> (Some e, u)
         | Inr t \<Rightarrow>
             (case np_index (union_index u) k of
                Inl e \<Rightarrow> (Some e, u)
              | Inr ix \<Rightarrow>
                  (case t of
                     One tag \<Rightarrow>
                       (case what of
                          Scalar v \<Rightarrow> (Some IndexError, u)
                        | NdArray vs \<Rightarrow>
                            if length vs = 1 then (Some IndexError, u)
                            else (Some TypeError, u))
                   | Many ts \<Rightarrow>
                       (case what of
                          Scalar v \<Rightarrow>
                            (case union_put (contents u) (unique ts) ts (sel_list ix)
                                    (\<lambda>tag. Scalar v) of
                               (err, cs) \<Rightarrow> (err, u\<lparr>contents := cs\<rparr>))
                        | NdArray vs \<Rightarrow>
                            if length vs = 1 then
                              (case union_put (contents u) (unique ts) ts (sel_list ix)
                                      (\<lambda>tag. Scalar (vs ! 0)) of
                                 (err, cs) \<Rightarrow> (err, u\<lparr>contents := cs\<rparr>))
                            else if length vs \<noteq> length ts
                            then (Some (ValueError_size (length vs) (length ts)), u)
                            else
                              (case union_put (contents u) (unique ts) ts (sel_list ix)
                                      (\<lambda>tag. NdArray
                                         (map snd (filter (\<lambda>(t, v). t = tag) (zip ts vs)))) of
                                 (err, cs) \<Rightarrow> (err, u\<lparr>contents := cs\<rparr>)))))))"

section \<open>ByteIndexedArray\<close>

text \<open>
  \<open>numpy.empty(n)\<close> is \<open>n\<close> elements of uninitialised memory: whatever \<open>junk\<close> says.
  The three buffers that the batched read allocates each have their own.
\<close>

definition numpy_empty :: "(nat \<Rightarrow> 'a) \<Rightarrow> nat \<Rightarrow> 'a list" where
  "numpy_empty junk n = map junk [0..<n]"

record uninitialised =
  junk_hold :: "nat \<Rightarrow> byte"
  junk_contidx :: "nat \<Rightarrow> int"
  junk_holdidx :: "nat \<Rightarrow> int"

text \<open>
  The positions of the slice \<open>off::step\<close> in an array of length \<open>n\<close>, the read
  \<open>xs[off::step]\<close>, and the assignment \<open>xs[off::step] = vs\<close>.
\<close>

definition slice_from :: "nat \<Rightarrow> nat \<Rightarrow> nat \<Rightarrow> nat list" where
  "slice_from n off step = map (\<lambda>k. off + k * step) [0..<(n - off + step - 1) div step]"

definition np_get_slice :: "'a list \<Rightarrow> nat \<Rightarrow> nat \<Rightarrow> error + 'a list" where
  "np_get_slice xs off step =
     (if step = 0 then Inl ValueError_step
      else Inr (map ((!) xs) (slice_from (length xs) off step)))"

definition np_set_slice :: "'a list \<Rightarrow> nat \<Rightarrow> nat \<Rightarrow> 'a list \<Rightarrow> error + 'a list" where
  "np_set_slice xs off step vs =
     (if step = 0 then Inl ValueError_step
      else
        (case np_broadcast (length (slice_from (length xs) off step)) (NdArray vs) of
           Inl e \<Rightarrow> Inl e
         | Inr ws \<Rightarrow> Inr (put_seq xs (slice_from (length xs) off step) ws)))"

text \<open>
  \<^verbatim>\<open>
  for offset in range(1, itemsize):
      idx[offset::itemsize] = idx[::itemsize] + offset
  \<close>
\<close>

fun fill_offsets :: "int list \<Rightarrow> nat \<Rightarrow> nat list \<Rightarrow> error + int list" where
  "fill_offsets idx step [] = Inr idx"
| "fill_offsets idx step (offset # rest) =
     (case np_get_slice idx 0 step of
        Inl e \<Rightarrow> Inl e
      | Inr firsts \<Rightarrow>
          (case np_set_slice idx offset step (map (\<lambda>f. f + int offset) firsts) of
             Inl e \<Rightarrow> Inl e
           | Inr idx' \<Rightarrow> fill_offsets idx' step rest))"

text \<open>
  \<^verbatim>\<open>
  idx = numpy.empty(len(starts) * itemsize, dtype=self.INDEXTYPE)
  idx[::itemsize] = firsts
  for offset in range(1, itemsize): ...
  \<close>
  with \<open>firsts\<close> the offsets \<open>starts\<close> (for \<open>contidx\<close>) or
  \<open>numpy.arange(0, len(starts) * itemsize, itemsize)\<close> (for \<open>holdidx\<close>).
\<close>

definition byte_positions :: "(nat \<Rightarrow> int) \<Rightarrow> nat \<Rightarrow> nat \<Rightarrow> int list \<Rightarrow> error + int list" where
  "byte_positions junk n step firsts =
     (case np_set_slice (numpy_empty junk (n * step)) 0 step firsts of
        Inl e \<Rightarrow> Inl e
      | Inr idx \<Rightarrow> fill_offsets idx step [1..<step])"

definition arange :: "nat \<Rightarrow> nat \<Rightarrow> int list" where
  "arange stop step = map (\<lambda>k. int (k * step)) [0..<(stop + step - 1) div step]"

text \<open>The first \<open>n\<close> values of \<open>k\<close> bytes each that a buffer holds.\<close>

definition values_of :: "'v dtype \<Rightarrow> nat \<Rightarrow> byte list \<Rightarrow> 'v list" where
  "values_of dt n buf =
     map (\<lambda>k. decode dt (take (itemsize dt) (drop (k * itemsize dt) buf))) [0..<n]"

text \<open>
  \<open>numpy.frombuffer(buf, dtype, count, offset)\<close>: the offset must lie in the buffer; a
  negative count takes all that is left, which must be whole values; any other count
  must fit in what is left.
\<close>

definition np_frombuffer :: "byte list \<Rightarrow> 'v dtype \<Rightarrow> int \<Rightarrow> int \<Rightarrow> error + 'v list" where
  "np_frombuffer buf dt count offset =
     (if itemsize dt = 0 then Inl ValueError_buffer
      else if offset < 0 \<or> int (length buf) < offset then Inl ValueError_buffer
      else if count < 0 then
        (if (length buf - nat offset) mod itemsize dt \<noteq> 0 then Inl ValueError_buffer
         else Inr (values_of dt ((length buf - nat offset) div itemsize dt)
                     (drop (nat offset) buf)))
      else if int (length buf) - offset < count * int (itemsize dt) then Inl ValueError_buffer
      else Inr (values_of dt (nat count) (drop (nat offset) buf)))"

text \<open>The scalar path of \<open>ByteIndexedArray.__getitem__\<close>: \<open>starts\<close> is one offset.\<close>

definition read_one :: "'v ByteIndexedArray \<Rightarrow> int \<Rightarrow> error + 'v" where
  "read_one a start =
     (let pos = start div int (itemsize (dtype a));
          offset = start mod int (itemsize (dtype a))
      in case np_frombuffer (content a) (dtype a) (pos + 1) offset of
           Inl e \<Rightarrow> Inl e
         | Inr vs \<Rightarrow> np_getitem vs pos)"

text \<open>The batched path: \<open>starts\<close> is an array of offsets.\<close>

definition read_many :: "uninitialised \<Rightarrow> 'v ByteIndexedArray \<Rightarrow> int list \<Rightarrow> error + 'v list" where
  "read_many junk a starts =
     (if length starts = 0 then Inr []
      else
        (case byte_positions (junk_contidx junk) (length starts) (itemsize (dtype a)) starts of
           Inl e \<Rightarrow> Inl e
         | Inr contidx \<Rightarrow>
             (case byte_positions (junk_holdidx junk) (length starts) (itemsize (dtype a))
                     (arange (length starts * itemsize (dtype a)) (itemsize (dtype a))) of
                Inl e \<Rightarrow> Inl e
              | Inr holdidx \<Rightarrow>
                  (case np_take (content a) contidx of
                     Inl e \<Rightarrow> Inl e
                   | Inr bytes \<Rightarrow>
                       (case np_setitem
                               (numpy_empty (junk_hold junk)
                                  (length starts * itemsize (dtype a)))
                               (Many holdidx) (NdArray bytes) of
                          Inl e \<Rightarrow> Inl e
                        | Inr hold \<Rightarrow> Inr (values_of (dtype a) (length starts) hold))))))"

definition ByteIndexedArray_getitem ::
  "byte fields \<Rightarrow> uninitialised \<Rightarrow> 'v ByteIndexedArray \<Rightarrow> key \<Rightarrow> error + 'v result" where
  "ByteIndexedArray_getitem cols junk a k =
     (if isstring k then
        (case column cols (content a) k of
           Inl e \<Rightarrow> Inl e
         | Inr c \<Rightarrow>
             Inr (ByteIndexedView
               \<lparr>index = index a, content = c, writeable = writeable a, dtype = dtype a\<rparr>))
      else
        (case np_index (index a) k of
           Inl e \<Rightarrow> Inl e
         | Inr (One start) \<Rightarrow>
             (case read_one a start of Inl e \<Rightarrow> Inl e | Inr v \<Rightarrow> Inr (Item v))
         | Inr (Many starts) \<Rightarrow>
             (case read_many junk a starts of Inl e \<Rightarrow> Inl e | Inr vs \<Rightarrow> Inr (Arr vs))))"

text \<open>An example dtype: unsigned little-endian integers of two bytes.\<close>

definition uint16 :: "nat dtype" where
  "uint16 = \<lparr>itemsize = 2, decode = (\<lambda>bs. unat (bs ! 0) + 256 * unat (bs ! 1))\<rparr>"

definition no_junk :: uninitialised where
  "no_junk = \<lparr>junk_hold = (\<lambda>i. 0), junk_contidx = (\<lambda>i. 0), junk_holdidx = (\<lambda>i. 0)\<rparr>"

text \<open>
  The value that the bytes at byte offset \<open>start\<close> of the content decode to.
\<close>

definition value_at :: "'v ByteIndexedArray \<Rightarrow> int \<Rightarrow> 'v" where
  "value_at a start =
     decode (dtype a) (take (itemsize (dtype a)) (drop (nat start) (content a)))"

text \<open>
  The byte positions of the values that start at \<open>firsts\<close>: each start is followed
  by the next \<open>S - 1\<close> positions.
\<close>

definition spread :: "nat \<Rightarrow> int list \<Rightarrow> int list" where
  "spread S firsts = concat (map (\<lambda>f. map (\<lambda>j. f + int j) [0..<S]) firsts)"

text \<open>
  An example: five overlapping, unaligned offsets into six bytes, read as two-byte
  values.
\<close>

definition sample_bytes :: "nat ByteIndexedArray" where
  "sample_bytes =
     \<lparr>index = [0, 3, 1, 4, 1], content = [1, 2, 3, 4, 5, 6], writeable = True, dtype = uint16\<rparr>"

section \<open>VirtualArray\<close>

text \<open>
  An array as \<open>materialize\<close> sees it: it has a dtype and a shape. The exceptions of
  \<^verbatim>\<open>virtual.py\<close> are the three \<open>ValueError\<close>s of \<open>materialize\<close> and whatever the
  generator, the conversion \<open>_toarray\<close> or the cache raise (\<open>Raised\<close>).
\<close>

record ('d, 'x) ndarray =
  nd_dtype :: 'd
  nd_shape :: "nat list"
  nd_data :: 'x

datatype invalid = ValueError_dtype | ValueError_materialized_shape | ValueError_scalar

datatype 'e verror = Raised 'e | Invalid invalid

text \<open>
  A cache key: the persistent key, a string, or \<open>TransientKey(id(self))\<close>.
\<close>

datatype vkey = PersistentKey string | TransientKey nat

text \<open>What \<open>self._array\<close> holds: \<open>None\<close>, an array, or a key.\<close>

datatype ('d, 'x) held = Nothing | HeldArray "('d, 'x) ndarray" | HeldKey vkey

text \<open>
  The collaborators of a VirtualArray. The generator is a callable of no arguments over
  a state of its own; \<open>_toarray\<close> converts what it returns; the cache is any object
  with \<open>__getitem__\<close> and \<open>__setitem__\<close>, each of which may raise and may change the
  cache.
\<close>

record ('c, 'g, 'r, 'd, 'x, 'e) collaborators =
  generate :: "'g \<Rightarrow> ('e + 'r) \<times> 'g"
  toarray :: "'r \<Rightarrow> 'e + ('d, 'x) ndarray"
  cache_getitem :: "'c \<Rightarrow> vkey \<Rightarrow> ('e + ('d, 'x) ndarray) \<times> 'c"
  cache_setitem :: "'c \<Rightarrow> vkey \<Rightarrow> ('d, 'x) ndarray \<Rightarrow> 'e option \<times> 'c"

text \<open>
  The view, with the cache it refers to and the state of its generator. \<open>gen_calls\<close>
  counts the calls of the generator; \<open>ident\<close> is \<open>id(self)\<close>.
\<close>

record ('c, 'g, 'd, 'x) VirtualArray =
  gen_state :: 'g
  gen_calls :: nat
  cache :: "'c option"
  persistentkey :: "string option"
  held_array :: "('d, 'x) held"
  declared_dtype :: "'d option"
  declared_shape :: "nat list option"
  ident :: nat

definition VirtualArray_key :: "('c, 'g, 'd, 'x) VirtualArray \<Rightarrow> vkey" where
  "VirtualArray_key v =
     (case persistentkey v of Some s \<Rightarrow> PersistentKey s | None \<Rightarrow> TransientKey (ident v))"

text \<open>The three checks of \<open>materialize\<close> on the converted array, in their order.\<close>

definition validate ::
  "('c, 'g, 'd, 'x) VirtualArray \<Rightarrow> ('d, 'x) ndarray \<Rightarrow> invalid option" where
  "validate v arr =
     (if declared_dtype v \<noteq> None \<and> declared_dtype v \<noteq> Some (nd_dtype arr)
      then Some ValueError_dtype
      else if declared_shape v \<noteq> None \<and> declared_shape v \<noteq> Some (nd_shape arr)
      then Some ValueError_materialized_shape
      else if length (nd_shape arr) = 0 then Some ValueError_scalar
      else None)"

text \<open>
  \<open>VirtualArray.materialize\<close>. With a cache, \<open>self._array = self.key\<close> is assigned
  before the array is stored in the cache.
\<close>

definition materialize ::
  "('c, 'g, 'r, 'd, 'x, 'e) collaborators \<Rightarrow> ('c, 'g, 'd, 'x) VirtualArray
     \<Rightarrow> ('e verror + ('d, 'x) ndarray) \<times> ('c, 'g, 'd, 'x) VirtualArray" where
  "materialize env v =
     (case generate env (gen_state v) of
        (out, g) \<Rightarrow>
          (let v1 = v\<lparr>gen_state := g, gen_calls := gen_calls v + 1\<rparr> in
           case out of
             Inl e \<Rightarrow> (Inl (Raised e), v1)
           | Inr raw \<Rightarrow>
               (case toarray env raw of
                  Inl e \<Rightarrow> (Inl (Raised e), v1)
                | Inr arr \<Rightarrow>
                    (case validate v1 arr of
                       Some err \<Rightarrow> (Inl (Invalid err), v1)
                     | None \<Rightarrow>
                         (case cache v1 of
                            None \<Rightarrow> (Inr arr, v1\<lparr>held_array := HeldArray arr\<rparr>)
                          | Some c \<Rightarrow>
                              (case cache_setitem env c (VirtualArray_key v1) arr of
                                 (Some e, c') \<Rightarrow>
                                   (Inl (Raised e),
                                    v1\<lparr>held_array := HeldKey (VirtualArray_key v1),
                                       cache := Some c'\<rparr>)
                               | (None, c') \<Rightarrow>
                                   (Inr arr,
                                    v1\<lparr>held_array := HeldKey (VirtualArray_key v1),
                                       cache := Some c'\<rparr>)))))))"

text \<open>
  The property \<open>VirtualArray.array\<close>. In the branch for a held key with a cache,
  the bare \<open>except:\<close> takes any exception of the lookup and materializes.
\<close>

definition VirtualArray_array ::
  "('c, 'g, 'r, 'd, 'x, 'e) collaborators \<Rightarrow> ('c, 'g, 'd, 'x) VirtualArray
     \<Rightarrow> ('e verror + ('d, 'x) ndarray) \<times> ('c, 'g, 'd, 'x) VirtualArray" where
  "VirtualArray_array env v =
     (case held_array v of
        Nothing \<Rightarrow> materialize env v
      | HeldArray a \<Rightarrow>
          (case cache v of
             None \<Rightarrow> (Inr a, v)
           | Some c \<Rightarrow>
               (case cache_setitem env c (VirtualArray_key v) a of
                  (Some e, c') \<Rightarrow> (Inl (Raised e), v\<lparr>cache := Some c'\<rparr>)
                | (None, c') \<Rightarrow> (Inr a, v\<lparr>cache := Some c'\<rparr>)))
      | HeldKey k \<Rightarrow>
          (case cache v of
             None \<Rightarrow> materialize env v
           | Some c \<Rightarrow>
               (case cache_getitem env c k of
                  (Inr a, c') \<Rightarrow> (Inr a, v\<lparr>cache := Some c'\<rparr>)
                | (Inl e, c') \<Rightarrow> materialize env (v\<lparr>cache := Some c'\<rparr>))))"

text \<open>
  A dict as the cache: a lookup of a missing key raises \<open>KeyError\<close>, a store always
  succeeds.
\<close>

datatype exn = KeyError | TypeError_unhashable

definition dict_getitem ::
  "(vkey \<rightharpoonup> ('d, 'x) ndarray) \<Rightarrow> vkey \<Rightarrow> (exn + ('d, 'x) ndarray) \<times> (vkey \<rightharpoonup> ('d, 'x) ndarray)" where
  "dict_getitem c k = (case c k of None \<Rightarrow> (Inl KeyError, c) | Some a \<Rightarrow> (Inr a, c))"

definition dict_setitem ::
  "(vkey \<rightharpoonup> ('d, 'x) ndarray) \<Rightarrow> vkey \<Rightarrow> ('d, 'x) ndarray
     \<Rightarrow> exn option \<times> (vkey \<rightharpoonup> ('d, 'x) ndarray)" where
  "dict_setitem c k a = (None, c(k \<mapsto> a))"

definition with_dict ::
  "('g \<Rightarrow> (exn + 'r) \<times> 'g) \<Rightarrow> ('r \<Rightarrow> exn + ('d, 'x) ndarray)
     \<Rightarrow> (vkey \<rightharpoonup> ('d, 'x) ndarray, 'g, 'r, 'd, 'x, exn) collaborators" where
  "with_dict gen conv =
     \<lparr>generate = gen, toarray = conv, cache_getitem = dict_getitem,
      cache_setitem = dict_setitem\<rparr>"

text \<open>
  A counting generator: it returns the same array on every call, and its state is the
  number of calls made so far.
\<close>

definition counting_generator ::
  "('d, 'x) ndarray \<Rightarrow> nat \<Rightarrow> (exn + ('d, 'x) ndarray) \<times> nat" where
  "counting_generator arr n = (Inr arr, n + 1)"

text \<open>
  The array that the next call of the generator yields, when the call and the
  conversion succeed and the array passes the three checks of \<open>materialize\<close>.
\<close>

definition valid_output ::
  "('c, 'g, 'r, 'd, 'x, 'e) collaborators \<Rightarrow> ('c, 'g, 'd, 'x) VirtualArray
     \<Rightarrow> ('d, 'x) ndarray option" where
  "valid_output env v =
     (case fst (generate env (gen_state v)) of
        Inl e \<Rightarrow> None
      | Inr raw \<Rightarrow>
          (case toarray env raw of
             Inl e \<Rightarrow> None
           | Inr arr \<Rightarrow> if validate v arr = None then Some arr else None))"

text \<open>
  The property \<open>ismaterialized\<close> over a dict cache. With a cache and an array held
  directly, \<open>self._array in self._cache\<close> hashes the array, which raises.
\<close>

definition ismaterialized ::
  "(vkey \<rightharpoonup> ('d, 'x) ndarray, 'g, 'd, 'x) VirtualArray \<Rightarrow> exn + bool" where
  "ismaterialized v =
     (case cache v of
        None \<Rightarrow> (case held_array v of HeldArray a \<Rightarrow> Inr True | _ \<Rightarrow> Inr False)
      | Some c \<Rightarrow>
          (case held_array v of
             Nothing \<Rightarrow> Inr False
           | HeldKey k \<Rightarrow> Inr (c k \<noteq> None)
           | HeldArray a \<Rightarrow> Inl TypeError_unhashable))"

text \<open>
  Example values: an array of three integers, a view over an empty dict cache that has
  not been read yet, and the same view after its first read and the removal of its cache
  entry (it holds its transient key, and the generator has been called once).
\<close>

definition sample_array :: "(string, int list) ndarray" where
  "sample_array = \<lparr>nd_dtype = ''int64'', nd_shape = [3], nd_data = [1, 2, 3]\<rparr>"

definition fresh_view ::
  "(vkey \<rightharpoonup> (string, int list) ndarray, nat, string, int list) VirtualArray" where
  "fresh_view =
     \<lparr>gen_state = 0, gen_calls = 0, cache = Some Map.empty, persistentkey = None,
      held_array = Nothing, declared_dtype = Some ''int64'', declared_shape = Some [3],
      ident = 7\<rparr>"

definition evicted_view ::
  "(vkey \<rightharpoonup> (string, int list) ndarray, nat, string, int list) VirtualArray" where
  "evicted_view =
     \<lparr>gen_state = 1, gen_calls = 1, cache = Some Map.empty, persistentkey = None,
      held_array = HeldKey (TransientKey 7), declared_dtype = Some ''int64'',
      declared_shape = Some [3], ident = 7\<rparr>"

section \<open>Properties of the substrate\<close>

lemma norm_index_nonneg:
  "0 \<le> i \<Longrightarrow> i < int n \<Longrightarrow> norm_index n i = Inr (nat i)"
  by (simp add: norm_index_def)

lemma np_getitem_nonneg:
  "0 \<le> i \<Longrightarrow> i < int (length xs) \<Longrightarrow> np_getitem xs i = Inr (xs ! nat i)"
  by (simp add: np_getitem_def norm_index_nonneg)

lemma np_getitem_member: "np_getitem xs i = Inr v \<Longrightarrow> v \<in> set xs"
  by (auto simp add: np_getitem_def norm_index_def split: if_splits)

lemma positional_At: "\<not> isstring (Pos (At p))"
  by (simp add: isstring_def)

lemma positional_All: "\<not> isstring (Pos All)"
  by (simp add: isstring_def)

lemma positional_Fancy: "isstring (Pos (Fancy is)) \<longleftrightarrow> is = []"
  by (simp add: isstring_def)

section \<open>Properties of IndexedArray\<close>

lemma IndexedArray_getitem_At:
  assumes "0 \<le> p" "p < int (length (index a))"
      and "0 \<le> index a ! nat p" "index a ! nat p < int (length (content a))"
  shows "IndexedArray_getitem cols a (Pos (At p)) = Inr (Item (content a ! nat (index a ! nat p)))"
  using assms
  by (simp add: IndexedArray_getitem_def isstring_def np_index_def np_select_def content_at_def
      np_getitem_nonneg)

text \<open>
  C5. Reading an in-range position \<open>p\<close> of an IndexedArray whose index value at \<open>p\<close> is a
  valid position of the content returns \<open>Content[Index[p]]\<close>; with Index = [2,0,1] and
  Content = [10,20,30] the reads at 0, 1, 2 return 30, 10, 20.
\<close>

theorem IndexedArray_read:
  "(0 \<le> p \<and> p < int (length (index a)) \<and>
    0 \<le> index a ! nat p \<and> index a ! nat p < int (length (content a))
      \<longrightarrow> IndexedArray_getitem cols a (Pos (At p)) = Inr (Item (content a ! nat (index a ! nat p))))
   \<and> IndexedArray_getitem cols'
        \<lparr>index = [2, 0, 1], content = [10, 20, 30 :: int], writeable = w\<rparr> (Pos (At 0)) = Inr (Item 30)
   \<and> IndexedArray_getitem cols'
        \<lparr>index = [2, 0, 1], content = [10, 20, 30 :: int], writeable = w\<rparr> (Pos (At 1)) = Inr (Item 10)
   \<and> IndexedArray_getitem cols'
        \<lparr>index = [2, 0, 1], content = [10, 20, 30 :: int], writeable = w\<rparr> (Pos (At 2)) = Inr (Item 20)"
proof -
  have general: "0 \<le> p \<and> p < int (length (index a)) \<and>
      0 \<le> index a ! nat p \<and> index a ! nat p < int (length (content a))
      \<longrightarrow> IndexedArray_getitem cols a (Pos (At p)) = Inr (Item (content a ! nat (index a ! nat p)))"
    by (simp add: IndexedArray_getitem_At)
  have concrete: "IndexedArray_getitem cols'
        \<lparr>index = [2, 0, 1], content = [10, 20, 30 :: int], writeable = w\<rparr> (Pos (At q))
      = Inr (Item (if q = 0 then 30 else if q = 1 then 10 else 20))" if "q \<in> {0, 1, 2}" for q
    using that
    by (auto simp add: IndexedArray_getitem_def isstring_def np_index_def np_select_def
        content_at_def np_getitem_def norm_index_def)
  show ?thesis
    using general concrete [of 0] concrete [of 1] concrete [of 2] by simp
qed

theorem IndexedArray_read_witness:
  "(0::int) \<le> 1 \<and> (1::int) < int (length [2, 0, 1 :: int]) \<and>
   IndexedArray_getitem plain_fields
     \<lparr>index = [2, 0, 1], content = [10, 20, 30 :: int], writeable = True\<rparr> (Pos (At 1))
     = Inr (Item 10)"
  using IndexedArray_read [of 1 "\<lparr>index = [2, 0, 1], content = [10, 20, 30 :: int], writeable = True\<rparr>"
      plain_fields plain_fields True]
  by simp




section \<open>Properties of IndexedMaskedArray\<close>

lemma length_put_seq: "length (put_seq xs ks vs) = length xs"
  by (induction xs ks vs rule: put_seq.induct) simp_all

lemma put_seq_nth_other: "k \<notin> set ks \<Longrightarrow> put_seq xs ks vs ! k = xs ! k"
  by (induction xs ks vs rule: put_seq.induct) auto

lemma norm_all_set:
  "norm_all n is = Inr ks \<Longrightarrow> k \<in> set ks \<Longrightarrow> \<exists>i \<in> set is. norm_index n i = Inr k"
  by (induction "is" arbitrary: ks) (auto split: sum.splits)

lemma norm_all_nonneg:
  "\<forall>i \<in> set is. 0 \<le> i \<and> i < int n \<Longrightarrow> norm_all n is = Inr (map nat is)"
  by (induction "is") (simp_all add: norm_index_def)

lemma IndexedMaskedArray_getitem_At:
  assumes "0 \<le> p" "p < int (length (index a))"
  shows "IndexedMaskedArray_getitem cols a (Pos (At p))
      = (if index a ! nat p = maskedwhen a then Inr Masked
         else element_at cols (content a) (index a ! nat p))"
  using assms by (simp add: IndexedMaskedArray_getitem_def isstring_def np_getitem_nonneg)

lemma masked_index_reads_masked:
  "np_getitem (index a) p = Inr (maskedwhen a)
     \<Longrightarrow> IndexedMaskedArray_getitem cols a (Pos (At p)) = Inr Masked"
  by (simp add: IndexedMaskedArray_getitem_def isstring_def)

text \<open>
  C7, as the code has it. At an in-range position \<open>p\<close>, the read of an IndexedMaskedArray
  is the missing value when \<open>Index[p]\<close> is \<open>maskedwhen\<close>, and otherwise it is
  \<open>Content[Index[p]]\<close>, which is the missing value again when the content holds a
  missing element there. Over a content without missing elements the read is missing
  exactly when \<open>Index[p]\<close> is \<open>maskedwhen\<close>. With maskedwhen = -1, Index = [-1,3] and
  the plain Content = [1,2,3,4] the read at 0 is missing and the read at 1 is 4.
\<close>

theorem IndexedMaskedArray_read:
  "(0 \<le> p \<and> p < int (length (index a)) \<longrightarrow>
      (index a ! nat p = maskedwhen a \<longrightarrow>
         IndexedMaskedArray_getitem cols a (Pos (At p)) = Inr Masked)
    \<and> (index a ! nat p \<noteq> maskedwhen a \<and> 0 \<le> index a ! nat p
         \<and> index a ! nat p < int (length (content a)) \<longrightarrow>
         IndexedMaskedArray_getitem cols a (Pos (At p))
           = (if is_masked cols (content a ! nat (index a ! nat p)) then Inr Masked
              else Inr (Item (content a ! nat (index a ! nat p)))))
    \<and> (index a ! nat p \<noteq> maskedwhen a
         \<and> \<not> (0 \<le> index a ! nat p \<and> index a ! nat p < int (length (content a))) \<longrightarrow>
         IndexedMaskedArray_getitem cols a (Pos (At p))
           = (case np_getitem (content a) (index a ! nat p) of
                Inl e \<Rightarrow> Inl e
              | Inr v \<Rightarrow> if is_masked cols v then Inr Masked else Inr (Item v)))
    \<and> ((\<forall>v \<in> set (content a). \<not> is_masked cols v) \<longrightarrow>
         (IndexedMaskedArray_getitem cols a (Pos (At p)) = Inr Masked
            \<longleftrightarrow> index a ! nat p = maskedwhen a)))
   \<and> IndexedMaskedArray_getitem plain_fields
        \<lparr>index = [- 1, 3], content = [1, 2, 3, 4 :: int], writeable = w, maskedwhen = - 1\<rparr>
        (Pos (At 0)) = Inr Masked
   \<and> IndexedMaskedArray_getitem plain_fields
        \<lparr>index = [- 1, 3], content = [1, 2, 3, 4 :: int], writeable = w, maskedwhen = - 1\<rparr>
        (Pos (At 1)) = Inr (Item 4)"
proof -
  have c0: "IndexedMaskedArray_getitem plain_fields
        \<lparr>index = [- 1, 3], content = [1, 2, 3, 4 :: int], writeable = w, maskedwhen = - 1\<rparr>
        (Pos (At 0)) = Inr Masked"
    by (simp add: IndexedMaskedArray_getitem_def isstring_def np_getitem_def norm_index_def)
  have c1: "IndexedMaskedArray_getitem plain_fields
        \<lparr>index = [- 1, 3], content = [1, 2, 3, 4 :: int], writeable = w, maskedwhen = - 1\<rparr>
        (Pos (At 1)) = Inr (Item 4)"
    by (simp add: IndexedMaskedArray_getitem_def isstring_def element_at_def np_getitem_def
        norm_index_def plain_fields_def)
  have general: "(index a ! nat p = maskedwhen a \<longrightarrow>
         IndexedMaskedArray_getitem cols a (Pos (At p)) = Inr Masked)
    \<and> (index a ! nat p \<noteq> maskedwhen a \<and> 0 \<le> index a ! nat p
         \<and> index a ! nat p < int (length (content a)) \<longrightarrow>
         IndexedMaskedArray_getitem cols a (Pos (At p))
           = (if is_masked cols (content a ! nat (index a ! nat p)) then Inr Masked
              else Inr (Item (content a ! nat (index a ! nat p)))))
    \<and> (index a ! nat p \<noteq> maskedwhen a
         \<and> \<not> (0 \<le> index a ! nat p \<and> index a ! nat p < int (length (content a))) \<longrightarrow>
         IndexedMaskedArray_getitem cols a (Pos (At p))
           = (case np_getitem (content a) (index a ! nat p) of
                Inl e \<Rightarrow> Inl e
              | Inr v \<Rightarrow> if is_masked cols v then Inr Masked else Inr (Item v)))
    \<and> ((\<forall>v \<in> set (content a). \<not> is_masked cols v) \<longrightarrow>
         (IndexedMaskedArray_getitem cols a (Pos (At p)) = Inr Masked
            \<longleftrightarrow> index a ! nat p = maskedwhen a))"
    if p: "0 \<le> p" "p < int (length (index a))"
  proof -
    note read = IndexedMaskedArray_getitem_At [OF p, of cols]
    have plain: "element_at cols (content a) j \<noteq> Inr Masked"
      if "\<forall>v \<in> set (content a). \<not> is_masked cols v" for j
      using that np_getitem_member [of "content a" j]
      by (auto simp add: element_at_def split: sum.splits)
    show ?thesis
    proof (intro conjI impI)
      assume "index a ! nat p = maskedwhen a"
      with read show "IndexedMaskedArray_getitem cols a (Pos (At p)) = Inr Masked"
        by simp
    next
      assume "index a ! nat p \<noteq> maskedwhen a \<and> 0 \<le> index a ! nat p
         \<and> index a ! nat p < int (length (content a))"
      with read show "IndexedMaskedArray_getitem cols a (Pos (At p))
           = (if is_masked cols (content a ! nat (index a ! nat p)) then Inr Masked
              else Inr (Item (content a ! nat (index a ! nat p))))"
        by (simp add: element_at_def np_getitem_nonneg)
    next
      assume "index a ! nat p \<noteq> maskedwhen a
         \<and> \<not> (0 \<le> index a ! nat p \<and> index a ! nat p < int (length (content a)))"
      with read show "IndexedMaskedArray_getitem cols a (Pos (At p))
           = (case np_getitem (content a) (index a ! nat p) of
                Inl e \<Rightarrow> Inl e
              | Inr v \<Rightarrow> if is_masked cols v then Inr Masked else Inr (Item v))"
        by (simp add: element_at_def)
    next
      assume "\<forall>v \<in> set (content a). \<not> is_masked cols v"
      with read plain show "IndexedMaskedArray_getitem cols a (Pos (At p)) = Inr Masked
            \<longleftrightarrow> index a ! nat p = maskedwhen a"
        by simp
    qed
  qed
  show ?thesis
    using general c0 c1 by blast
qed

theorem IndexedMaskedArray_read_witness:
  "(0::int) \<le> 1 \<and> (1::int) < int (length [- 1, 1 :: int])
   \<and> IndexedMaskedArray_getitem optional_fields
        \<lparr>index = [- 1, 1], content = [None, Some (5 :: int)], writeable = True, maskedwhen = - 1\<rparr>
        (Pos (At 1)) = Inr (Item (Some 5))
   \<and> IndexedMaskedArray_getitem plain_fields
        \<lparr>index = [- 1, 3], content = [1, 2, 3, 4 :: int], writeable = True, maskedwhen = - 1\<rparr>
        (Pos (At 1)) = Inr (Item 4)"
proof -
  let ?a = "\<lparr>index = [- 1, 1], content = [None, Some (5 :: int)], writeable = True,
             maskedwhen = - 1\<rparr>"
  have range: "(0::int) \<le> 1 \<and> (1::int) < int (length (index ?a))"
    by simp
  have valid: "index ?a ! nat 1 \<noteq> maskedwhen ?a \<and> 0 \<le> index ?a ! nat 1
      \<and> index ?a ! nat 1 < int (length (content ?a))"
    by simp
  from IndexedMaskedArray_read [of 1 ?a optional_fields True] range valid
  have "IndexedMaskedArray_getitem optional_fields ?a (Pos (At 1))
      = (if is_masked optional_fields (content ?a ! nat (index ?a ! nat 1)) then Inr Masked
         else Inr (Item (content ?a ! nat (index ?a ! nat 1))))"
    by blast
  moreover from IndexedMaskedArray_read [of 1 ?a optional_fields True]
  have "IndexedMaskedArray_getitem plain_fields
        \<lparr>index = [- 1, 3], content = [1, 2, 3, 4 :: int], writeable = True, maskedwhen = - 1\<rparr>
        (Pos (At 1)) = Inr (Item 4)"
    by blast
  ultimately show ?thesis
    by (simp add: optional_fields_def)
qed

text \<open>
  A content that holds a missing element, as a nested IndexedMaskedArray over
  Index = [-1] does at its position 0: the index value 0 is not \<open>maskedwhen\<close>, and the
  read is the missing value of the content.
\<close>

theorem IndexedMaskedArray_read_counterexample:
  "IndexedMaskedArray_getitem optional_fields
      \<lparr>index = [0], content = [None :: int option], writeable = True, maskedwhen = - 1\<rparr>
      (Pos (At 0)) = Inr Masked"
  by (simp add: IndexedMaskedArray_getitem_def isstring_def element_at_def np_getitem_def
      norm_index_def optional_fields_def)

lemma markerless_put_frame:
  assumes "markerless_put Distinct a head vs = (err, a')"
  shows "index a' = index a \<and> maskedwhen a' = maskedwhen a \<and> writeable a' = writeable a
         \<and> length (content a') = length (content a)"
  using assms
  by (auto simp add: markerless_put_def np_setitem_def length_put_seq store_content_def
      split: sum.splits sel.splits if_splits)

lemma markerless_put_changed:
  assumes "markerless_put Distinct a head vs = (err, a')"
      and "content a' ! k \<noteq> content a ! k"
  shows "\<exists>js j. np_index (index a) head = Inr (Many js) \<and> j \<in> set js \<and> j \<noteq> maskedwhen a
           \<and> norm_index (length (content a)) j = Inr k"
proof -
  from assms obtain js where js: "np_index (index a) head = Inr (Many js)"
    by (auto simp add: markerless_put_def split: sum.splits sel.splits if_splits)
  let ?sel = "filter (\<lambda>(j, v). j \<noteq> maskedwhen a) (zip js vs)"
  from assms js obtain ks where ks: "norm_all (length (content a)) (map fst ?sel) = Inr ks"
    and c: "content a' = put_seq (content a) ks (map snd ?sel)"
    by (auto simp add: markerless_put_def np_setitem_def np_broadcast_def store_content_def
        split: sum.splits if_splits)
  from c assms(2) have "k \<in> set ks"
    using put_seq_nth_other by metis
  with ks obtain j where j: "j \<in> set (map fst ?sel)" "norm_index (length (content a)) j = Inr k"
    using norm_all_set by blast
  from j(1) have "j \<in> set js" "j \<noteq> maskedwhen a"
    by (auto dest: set_zip_leftD)
  with js j(2) show ?thesis by blast
qed

lemma markerless_put_written:
  assumes "np_index (index a) head = Inr (Many js)" and "length vs = length js"
      and "\<forall>j \<in> set js. j \<noteq> maskedwhen a \<longrightarrow> 0 \<le> j \<and> j < int (length (content a))"
  shows "markerless_put Distinct a head vs =
           (None, a\<lparr>content := put_seq (content a)
              (map nat (map fst (filter (\<lambda>(j, v). j \<noteq> maskedwhen a) (zip js vs))))
              (map snd (filter (\<lambda>(j, v). j \<noteq> maskedwhen a) (zip js vs)))\<rparr>)"
proof -
  let ?sel = "filter (\<lambda>(j, v). j \<noteq> maskedwhen a) (zip js vs)"
  have "\<forall>i \<in> set (map fst ?sel). 0 \<le> i \<and> i < int (length (content a))"
    using assms(3) by (auto dest: set_zip_leftD)
  then have "norm_all (length (content a)) (map fst ?sel) = Inr (map nat (map fst ?sel))"
    by (rule norm_all_nonneg)
  then show ?thesis
    using assms(1,2)
    by (simp add: markerless_put_def np_setitem_def np_broadcast_def store_content_def)
qed

text \<open>
  C2, as the code has it. On a writeable IndexedMaskedArray whose index and content are
  distinct arrays, assigning a plain array of a length other than one leaves the index
  and \<open>maskedwhen\<close> as they were; a content slot \<open>k\<close> that changes is \<open>Index[p]\<close> for a
  selected position \<open>p\<close> whose index value is not \<open>maskedwhen\<close>; and a position whose
  index value is \<open>maskedwhen\<close> reads as missing after the write. This holds whether the
  assignment succeeds or raises. With a positional subscript that selects as many
  positions as the array has elements, and valid index values at the positions that are
  not masked, the assignment succeeds and writes, in order, each element to the slot of
  its position unless the position is masked.
\<close>

theorem markerless_write_keeps_masked:
  assumes "writeable a" and "length vs \<noteq> 1"
      and "IndexedMaskedArray_setitem Distinct cols a (Pos head) (Plain (NdArray vs)) = (err, a')"
  shows "index a' = index a \<and> maskedwhen a' = maskedwhen a
       \<and> length (content a') = length (content a)
       \<and> (\<forall>k. content a' ! k \<noteq> content a ! k \<longrightarrow>
            (\<exists>js j. np_select (index a) head = Inr (Many js) \<and> j \<in> set js
               \<and> j \<noteq> maskedwhen a \<and> norm_index (length (content a)) j = Inr k))
       \<and> (\<forall>p. np_getitem (index a) p = Inr (maskedwhen a) \<longrightarrow>
            IndexedMaskedArray_getitem cols a' (Pos (At p)) = Inr Masked)
       \<and> (\<forall>js. \<not> isstring (Pos head) \<and> np_select (index a) head = Inr (Many js)
              \<and> length vs = length js
              \<and> (\<forall>j \<in> set js. j \<noteq> maskedwhen a \<longrightarrow> 0 \<le> j \<and> j < int (length (content a)))
            \<longrightarrow> err = None
              \<and> content a' = put_seq (content a)
                   (map nat (map fst (filter (\<lambda>(j, v). j \<noteq> maskedwhen a) (zip js vs))))
                   (map snd (filter (\<lambda>(j, v). j \<noteq> maskedwhen a) (zip js vs))))"
proof (cases "isstring (Pos head)")
  case True
  with assms have "a' = a"
    by (simp add: IndexedMaskedArray_setitem_def)
  with True show ?thesis
    by (simp add: masked_index_reads_masked)
next
  case False
  with assms have put: "markerless_put Distinct a (Pos head) vs = (err, a')"
    by (simp add: IndexedMaskedArray_setitem_def)
  note frame = markerless_put_frame [OF put]
  have masked: "IndexedMaskedArray_getitem cols a' (Pos (At p)) = Inr Masked"
    if "np_getitem (index a) p = Inr (maskedwhen a)" for p
    using that frame masked_index_reads_masked [of a' p cols] by simp
  have changed: "\<exists>js j. np_select (index a) head = Inr (Many js) \<and> j \<in> set js
               \<and> j \<noteq> maskedwhen a \<and> norm_index (length (content a)) j = Inr k"
    if "content a' ! k \<noteq> content a ! k" for k
    using markerless_put_changed [OF put that] by (simp add: np_index_def)
  have written: "err = None
      \<and> content a' = put_seq (content a)
           (map nat (map fst (filter (\<lambda>(j, v). j \<noteq> maskedwhen a) (zip js vs))))
           (map snd (filter (\<lambda>(j, v). j \<noteq> maskedwhen a) (zip js vs)))"
    if "np_select (index a) head = Inr (Many js)" "length vs = length js"
      "\<forall>j \<in> set js. j \<noteq> maskedwhen a \<longrightarrow> 0 \<le> j \<and> j < int (length (content a))" for js
  proof -
    from that(1) have "np_index (index a) (Pos head) = Inr (Many js)"
      by (simp add: np_index_def)
    from markerless_put_written [OF this that(2,3)] put show ?thesis
      by simp
  qed
  show ?thesis
    using frame masked changed written by blast
qed

theorem markerless_write_keeps_masked_witness:
  "IndexedMaskedArray_setitem Distinct plain_fields
      \<lparr>index = [- 1, 0, 1, - 1], content = [1, 2, 3 :: int], writeable = True, maskedwhen = - 1\<rparr>
      (Pos All) (Plain (NdArray [7, 8, 9, 10]))
     = (None, \<lparr>index = [- 1, 0, 1, - 1], content = [8, 9, 3], writeable = True,
               maskedwhen = - 1\<rparr>)
   \<and> IndexedMaskedArray_getitem plain_fields
      \<lparr>index = [- 1, 0, 1, - 1], content = [8, 9, 3 :: int], writeable = True, maskedwhen = - 1\<rparr>
      (Pos (At 3)) = Inr Masked"
proof -
  let ?a = "\<lparr>index = [- 1, 0, 1, - 1], content = [1, 2, 3 :: int], writeable = True,
             maskedwhen = - 1\<rparr>"
  let ?a' = "\<lparr>index = [- 1, 0, 1, - 1], content = [8, 9, 3 :: int], writeable = True,
              maskedwhen = - 1\<rparr>"
  have run: "IndexedMaskedArray_setitem Distinct plain_fields ?a (Pos All)
      (Plain (NdArray [7, 8, 9, 10])) = (None, ?a')"
    by (simp add: IndexedMaskedArray_setitem_def isstring_def markerless_put_def np_index_def
        np_select_def np_setitem_def np_broadcast_def norm_index_def store_content_def)
  have before: "np_getitem (index ?a) 3 = Inr (maskedwhen ?a)"
    by (simp add: np_getitem_def norm_index_def)
  have "writeable ?a" and "length [7, 8, 9, 10 :: int] \<noteq> 1"
    by simp_all
  from markerless_write_keeps_masked [OF this run] before
  have "IndexedMaskedArray_getitem plain_fields ?a' (Pos (At 3)) = Inr Masked"
    by blast
  with run show ?thesis by simp
qed

text \<open>
  Two writes of a plain array without markers that do not leave a masked position as
  it was. A plain array of length one takes the earlier length-one branch of
  \<open>__setitem__\<close>: with Index = [-1] and maskedwhen = -1 the only selected position is
  masked, and the write overwrites the content slot -1. And with one array
  \<open>x = [-1,0,1,2]\<close> as both index and content, the write of \<open>[7,8,9,10]\<close> to the
  positions that are not masked makes \<open>x\<close> \<open>[8,9,10,2]\<close>: the index value of position 0
  is no longer \<open>maskedwhen\<close>.
\<close>

theorem markerless_write_counterexample:
  "IndexedMaskedArray_setitem Distinct plain_fields
      \<lparr>index = [- 1], content = [1, 2, 3 :: int], writeable = True, maskedwhen = - 1\<rparr>
      (Pos All) (Plain (NdArray [7]))
     = (None, \<lparr>index = [- 1], content = [1, 2, 7], writeable = True, maskedwhen = - 1\<rparr>)
   \<and> IndexedMaskedArray_setitem (Shared (\<lambda>v. v) (\<lambda>i. i)) plain_fields
      \<lparr>index = [- 1, 0, 1, 2], content = [- 1, 0, 1, 2 :: int], writeable = True,
       maskedwhen = - 1\<rparr>
      (Pos All) (Plain (NdArray [7, 8, 9, 10]))
     = (None, \<lparr>index = [8, 9, 10, 2], content = [8, 9, 10, 2], writeable = True,
               maskedwhen = - 1\<rparr>)"
  by (simp add: IndexedMaskedArray_setitem_def isstring_def content_put_def markerless_put_def
      np_index_def np_select_def np_setitem_def np_broadcast_def norm_index_def
      store_content_def)

section \<open>Properties of UnionArray\<close>











text \<open>
  C4, as the code has it. On a UnionArray whose tags and index differ in shape, every
  read by a position (an integer, the full slice or a non-empty integer array) raises
  the shape-mismatch error, and every write by a position raises it on a writeable view
  and the read-only error on a view that is not writeable; the write leaves the view,
  and so the two shapes, as they were.
\<close>

theorem UnionArray_shape_mismatch:
  assumes "shape (tags u) \<noteq> shape (union_index u)" and "\<not> isstring (Pos head)"
  shows "UnionArray_getitem cols u (Pos head)
           = Inl (ValueError_shape (shape (tags u)) (shape (union_index u)))
       \<and> (union_writeable u \<longrightarrow>
            UnionArray_setitem cols u (Pos head) what
              = (Some (ValueError_shape (shape (tags u)) (shape (union_index u))), u))
       \<and> (\<not> union_writeable u \<longrightarrow>
            UnionArray_setitem cols u (Pos head) what = (Some ValueError_readonly, u))"
  using assms by (simp add: UnionArray_getitem_def UnionArray_setitem_def)

theorem UnionArray_shape_mismatch_witness:
  "shape [0, 1, 0 :: int] \<noteq> shape [0, 0 :: int]
   \<and> UnionArray_getitem plain_fields
        \<lparr>tags = [0, 1, 0], union_index = [0, 0], contents = [[5, 6], [7 :: int]],
         union_writeable = True\<rparr> (Pos (At 0)) = Inl (ValueError_shape [3] [2])
   \<and> UnionArray_setitem plain_fields
        \<lparr>tags = [0, 1, 0], union_index = [0, 0], contents = [[5, 6], [7 :: int]],
         union_writeable = True\<rparr> (Pos (At 0)) (Scalar 9)
       = (Some (ValueError_shape [3] [2]),
          \<lparr>tags = [0, 1, 0], union_index = [0, 0], contents = [[5, 6], [7 :: int]],
           union_writeable = True\<rparr>)"
proof -
  have h: "shape (tags \<lparr>tags = [0, 1, 0], union_index = [0, 0], contents = [[5, 6], [7 :: int]],
         union_writeable = True\<rparr>) \<noteq> shape (union_index \<lparr>tags = [0, 1, 0], union_index = [0, 0],
         contents = [[5, 6], [7 :: int]], union_writeable = True\<rparr>)"
    by (simp add: shape_def)
  have k: "\<not> isstring (Pos (At 0))"
    by (simp add: isstring_def)
  show ?thesis
    using UnionArray_shape_mismatch [OF h k, of plain_fields "Scalar 9"]
    by (simp add: shape_def)
qed

text \<open>
  Three accesses to a UnionArray with tags of shape (3,) and index of shape (2,) that
  raise another error than the shape mismatch: a write to a view that is not writeable
  (the read-only check comes first), a read by a column name over plain contents (the
  string branch comes first, and projecting the first content raises), and a read by
  the empty integer array (the string branch again, up to the unbound \<open>writeable\<close>).
\<close>

theorem UnionArray_shape_mismatch_counterexample:
  "UnionArray_setitem plain_fields
      \<lparr>tags = [0, 1, 0], union_index = [0, 0], contents = [[5, 6], [7 :: int]],
       union_writeable = False\<rparr> (Pos (At 0)) (Scalar 9)
     = (Some ValueError_readonly,
        \<lparr>tags = [0, 1, 0], union_index = [0, 0], contents = [[5, 6], [7 :: int]],
         union_writeable = False\<rparr>)
   \<and> UnionArray_getitem plain_fields
      \<lparr>tags = [0, 1, 0], union_index = [0, 0], contents = [[5, 6], [7 :: int]],
       union_writeable = True\<rparr> (Name ''x'') = Inl IndexError
   \<and> UnionArray_getitem plain_fields
      \<lparr>tags = [0, 1, 0], union_index = [0, 0], contents = [[5, 6], [7 :: int]],
       union_writeable = True\<rparr> (Pos (Fancy [])) = Inl (NameError ''writeable'')"
  by (simp add: UnionArray_setitem_def UnionArray_getitem_def isstring_def column_def
      plain_fields_def np_select_def np_take_def sel_list_def)

section \<open>Access by a column name\<close>

lemma project_all_Inr:
  "(\<forall>c \<in> set cs. \<exists>c'. column cols c k = Inr c') \<Longrightarrow> \<exists>ps. project_all cols cs k = Inr ps"
  by (induction cs) auto

lemma project_all_first:
  "(\<forall>x \<in> set pre. \<exists>x'. column cols x k = Inr x') \<Longrightarrow> column cols c k = Inl e
     \<Longrightarrow> project_all cols (pre @ c # post) k = Inl e"
  by (induction pre) auto

text \<open>
  C10, as the code has it. Access by a column name (a key that \<open>_isstring\<close> accepts)
  never succeeds and changes nothing. A write to an IndexedMaskedArray raises
  \<open>NameError\<close> (the unassigned local \<open>head\<close>). A read or write of a UnionArray
  first projects the contents by the key, one after the other: when every projection
  succeeds (as with no contents at all) it raises \<open>NameError\<close> (the unbound
  \<open>writeable\<close>), and otherwise it raises the error of the first content whose
  projection raises.
\<close>

theorem string_key_raises:
  assumes "isstring k"
  shows "IndexedMaskedArray_setitem sh cols' a k mwhat = (Some (NameError ''head''), a)
   \<and> (\<exists>e. UnionArray_getitem cols u k = Inl e)
   \<and> (\<exists>e. UnionArray_setitem cols u k what = (Some e, u))
   \<and> ((\<forall>c \<in> set (contents u). \<exists>c'. column cols c k = Inr c') \<longrightarrow>
        UnionArray_getitem cols u k = Inl (NameError ''writeable'')
        \<and> UnionArray_setitem cols u k what = (Some (NameError ''writeable''), u))
   \<and> (contents u = pre @ c # post \<and> (\<forall>x \<in> set pre. \<exists>x'. column cols x k = Inr x')
        \<and> column cols c k = Inl e \<longrightarrow>
        UnionArray_getitem cols u k = Inl e
        \<and> UnionArray_setitem cols u k what = (Some e, u))"
proof (intro conjI impI)
  show "IndexedMaskedArray_setitem sh cols' a k mwhat = (Some (NameError ''head''), a)"
    using assms by (simp add: IndexedMaskedArray_setitem_def)
  show "\<exists>e. UnionArray_getitem cols u k = Inl e"
    using assms by (simp add: UnionArray_getitem_def split: sum.splits)
  show "\<exists>e. UnionArray_setitem cols u k what = (Some e, u)"
    using assms by (simp add: UnionArray_setitem_def split: sum.splits)
next
  assume "\<forall>c \<in> set (contents u). \<exists>c'. column cols c k = Inr c'"
  then obtain ps where ps: "project_all cols (contents u) k = Inr ps"
    using project_all_Inr by blast
  then show "UnionArray_getitem cols u k = Inl (NameError ''writeable'')"
    using assms by (simp add: UnionArray_getitem_def)
  from ps show "UnionArray_setitem cols u k what = (Some (NameError ''writeable''), u)"
    using assms by (simp add: UnionArray_setitem_def)
next
  assume first: "contents u = pre @ c # post
      \<and> (\<forall>x \<in> set pre. \<exists>x'. column cols x k = Inr x') \<and> column cols c k = Inl e"
  then have e: "project_all cols (contents u) k = Inl e"
    using project_all_first [of pre cols k c e post] by simp
  then show "UnionArray_getitem cols u k = Inl e"
    using assms by (simp add: UnionArray_getitem_def)
  from e show "UnionArray_setitem cols u k what = (Some e, u)"
    using assms by (simp add: UnionArray_setitem_def)
qed

text \<open>
  A column store in which the arrays of one element have no column and raise
  \<open>TypeError\<close>, the empty arrays raise \<open>IndexError\<close>, and every other array is its
  own column. Over the contents ([5,6],[7],[]) the first failure is the one raised; over
  ([5,6]) no projection fails.
\<close>

theorem string_key_raises_witness:
  "isstring (Name ''x'')
   \<and> UnionArray_getitem
      \<lparr>getfield = (\<lambda>xs name. if length xs = 1 then Inl TypeError
                              else if xs = [] then Inl IndexError else Inr xs),
       putfield = (\<lambda>xs name col. col), is_masked = (\<lambda>v. False)\<rparr>
      \<lparr>tags = [0, 1, 0], union_index = [0, 0, 1], contents = [[5, 6], [7 :: int], []],
       union_writeable = True\<rparr> (Name ''x'') = Inl TypeError
   \<and> UnionArray_setitem
      \<lparr>getfield = (\<lambda>xs name. if length xs = 1 then Inl TypeError
                              else if xs = [] then Inl IndexError else Inr xs),
       putfield = (\<lambda>xs name col. col), is_masked = (\<lambda>v. False)\<rparr>
      \<lparr>tags = [0, 1, 0], union_index = [0, 0, 1], contents = [[5, 6], [7 :: int], []],
       union_writeable = True\<rparr> (Name ''x'') (Scalar 9)
      = (Some TypeError,
         \<lparr>tags = [0, 1, 0], union_index = [0, 0, 1], contents = [[5, 6], [7 :: int], []],
          union_writeable = True\<rparr>)
   \<and> UnionArray_getitem
      \<lparr>getfield = (\<lambda>xs name. if length xs = 1 then Inl TypeError
                              else if xs = [] then Inl IndexError else Inr xs),
       putfield = (\<lambda>xs name col. col), is_masked = (\<lambda>v. False)\<rparr>
      \<lparr>tags = [0, 0], union_index = [0, 1], contents = [[5, 6 :: int]],
       union_writeable = True\<rparr> (Name ''x'') = Inl (NameError ''writeable'')
   \<and> IndexedMaskedArray_setitem Distinct plain_fields
      \<lparr>index = [- 1], content = [1 :: int], writeable = True, maskedwhen = - 1\<rparr>
      (Name ''x'') MaskedConstant
      = (Some (NameError ''head''),
         \<lparr>index = [- 1], content = [1 :: int], writeable = True, maskedwhen = - 1\<rparr>)"
proof -
  let ?cols = "\<lparr>getfield = (\<lambda>xs name. if length xs = 1 then Inl TypeError
                              else if xs = [] then Inl IndexError else Inr xs),
       putfield = (\<lambda>xs name col. col), is_masked = (\<lambda>v. False)\<rparr> :: int fields"
  let ?U = "\<lparr>tags = [0, 1, 0], union_index = [0, 0, 1], contents = [[5, 6], [7 :: int], []],
       union_writeable = True\<rparr>"
  let ?V = "\<lparr>tags = [0, 0], union_index = [0, 1], contents = [[5, 6 :: int]],
       union_writeable = True\<rparr>"
  let ?A = "\<lparr>index = [- 1], content = [1 :: int], writeable = True, maskedwhen = - 1\<rparr>"
  have k: "isstring (Name ''x'')"
    by (simp add: isstring_def)
  have first: "contents ?U = [[5, 6]] @ [7] # [[]]
      \<and> (\<forall>x \<in> set [[5, 6 :: int]]. \<exists>x'. column ?cols x (Name ''x'') = Inr x')
      \<and> column ?cols [7] (Name ''x'') = Inl TypeError"
    by (simp add: column_def)
  have all: "\<forall>c \<in> set (contents ?V). \<exists>c'. column ?cols c (Name ''x'') = Inr c'"
    by (simp add: column_def)
  from string_key_raises [OF k, of Distinct plain_fields ?A MaskedConstant ?cols ?U "Scalar 9"
      "[[5, 6]]" "[7]" "[[]]" TypeError] first
  have u: "UnionArray_getitem ?cols ?U (Name ''x'') = Inl TypeError
      \<and> UnionArray_setitem ?cols ?U (Name ''x'') (Scalar 9) = (Some TypeError, ?U)
      \<and> IndexedMaskedArray_setitem Distinct plain_fields ?A (Name ''x'') MaskedConstant
          = (Some (NameError ''head''), ?A)"
    by blast
  from string_key_raises [OF k, of Distinct plain_fields ?A MaskedConstant ?cols ?V "Scalar 9"
      "[]" "[]" "[]" TypeError] all
  have v: "UnionArray_getitem ?cols ?V (Name ''x'') = Inl (NameError ''writeable'')"
    by blast
  from k u v show ?thesis
    by blast
qed

text \<open>
  The contents of this UnionArray are plain arrays, which have no column \<open>x\<close>:
  projecting the first of them raises before the unbound name is reached.
\<close>

theorem string_key_raises_counterexample:
  "UnionArray_getitem plain_fields
      \<lparr>tags = [0, 1, 0], union_index = [0, 0, 1], contents = [[5, 6], [7 :: int]],
       union_writeable = True\<rparr> (Name ''x'') = Inl IndexError
   \<and> UnionArray_setitem plain_fields
      \<lparr>tags = [0, 1, 0], union_index = [0, 0, 1], contents = [[5, 6], [7 :: int]],
       union_writeable = True\<rparr> (Name ''x'') (Scalar 9)
     = (Some IndexError,
        \<lparr>tags = [0, 1, 0], union_index = [0, 0, 1], contents = [[5, 6], [7 :: int]],
         union_writeable = True\<rparr>)"
  by (simp add: UnionArray_getitem_def UnionArray_setitem_def isstring_def column_def
      plain_fields_def)

section \<open>Properties of VirtualArray\<close>

lemma validate_update [simp]:
  "validate (v\<lparr>gen_state := g, gen_calls := n\<rparr>) arr = validate v arr"
  "validate (v\<lparr>cache := c\<rparr>) arr = validate v arr"
  by (simp_all add: validate_def)

lemma materialize_calls: "gen_calls (snd (materialize env v)) = gen_calls v + 1"
  by (simp add: materialize_def Let_def split: prod.splits sum.splits option.splits)

lemma materialize_valid_no_cache:
  assumes "valid_output env v = Some arr" and "cache v = None"
  shows "materialize env v =
           (Inr arr, v\<lparr>gen_state := snd (generate env (gen_state v)),
                       gen_calls := gen_calls v + 1, held_array := HeldArray arr\<rparr>)"
  using assms
  by (auto simp add: materialize_def valid_output_def Let_def
      split: prod.splits sum.splits option.splits if_splits)

lemma materialize_valid_dict:
  assumes "valid_output (with_dict gen conv) v = Some arr" and "cache v = Some c"
  shows "materialize (with_dict gen conv) v =
           (Inr arr, v\<lparr>gen_state := snd (gen (gen_state v)),
                       gen_calls := gen_calls v + 1,
                       held_array := HeldKey (VirtualArray_key v),
                       cache := Some (c(VirtualArray_key v \<mapsto> arr))\<rparr>)"
  using assms
  by (auto simp add: materialize_def valid_output_def Let_def with_dict_def dict_setitem_def
      VirtualArray_key_def
      split: prod.splits sum.splits option.splits if_splits)

lemma lookup_failure:
  assumes "cache v = Some c" "held_array v = HeldKey k" "cache_getitem env c k = (Inl e, c')"
  shows "VirtualArray_array env v = materialize env (v\<lparr>cache := Some c'\<rparr>)"
  using assms by (simp add: VirtualArray_array_def)

lemma ismaterialized_True:
  "ismaterialized v = Inr True \<longleftrightarrow>
     (cache v = None \<and> (\<exists>a. held_array v = HeldArray a))
     \<or> (\<exists>c k. cache v = Some c \<and> held_array v = HeldKey k \<and> k \<in> dom c)"
  by (auto simp add: ismaterialized_def split: option.splits held.splits)

text \<open>
  C3. On a VirtualArray with a cache that holds a key, whatever exception \<open>e\<close> the
  lookup of the key raises (a \<open>KeyError\<close> after an eviction, or anything else), the
  access of \<open>array\<close> is the run of \<open>materialize\<close>: the generator is called once
  more, the outcome does not depend on \<open>e\<close>, and when the generator's output passes
  validation and the cache stores it the access returns that array.
\<close>

theorem lookup_failure_rematerializes:
  assumes "cache v = Some c" and "held_array v = HeldKey k"
      and "cache_getitem env c k = (Inl e, c')"
  shows "VirtualArray_array env v = materialize env (v\<lparr>cache := Some c'\<rparr>)
       \<and> gen_calls (snd (VirtualArray_array env v)) = gen_calls v + 1
       \<and> (\<forall>arr c''. valid_output env v = Some arr
             \<and> cache_setitem env c' (VirtualArray_key v) arr = (None, c'')
            \<longrightarrow> fst (VirtualArray_array env v) = Inr arr)"
proof -
  have eq: "VirtualArray_array env v = materialize env (v\<lparr>cache := Some c'\<rparr>)"
    using assms by (rule lookup_failure)
  have calls: "gen_calls (snd (VirtualArray_array env v)) = gen_calls v + 1"
    by (simp add: eq materialize_calls)
  have ok: "fst (VirtualArray_array env v) = Inr arr"
    if "valid_output env v = Some arr"
      "cache_setitem env c' (VirtualArray_key v) arr = (None, c'')" for arr c''
    using that
    by (auto simp add: eq materialize_def valid_output_def Let_def VirtualArray_key_def
        split: prod.splits sum.splits option.splits if_splits)
  show ?thesis
    using eq calls ok by blast
qed

theorem lookup_failure_rematerializes_witness:
  "fst (VirtualArray_array (with_dict (counting_generator sample_array) Inr) evicted_view)
     = Inr sample_array
   \<and> gen_calls
       (snd (VirtualArray_array (with_dict (counting_generator sample_array) Inr) evicted_view))
     = 2"
proof -
  let ?env = "with_dict (counting_generator sample_array) Inr"
  have h1: "cache evicted_view = Some Map.empty"
    by (simp add: evicted_view_def)
  have h2: "held_array evicted_view = HeldKey (TransientKey 7)"
    by (simp add: evicted_view_def)
  have h3: "cache_getitem ?env Map.empty (TransientKey 7) = (Inl KeyError, Map.empty)"
    by (simp add: with_dict_def dict_getitem_def)
  have h4: "valid_output ?env evicted_view = Some sample_array"
    by (simp add: valid_output_def with_dict_def counting_generator_def validate_def
        evicted_view_def sample_array_def)
  have h5: "cache_setitem ?env Map.empty (VirtualArray_key evicted_view) sample_array
      = (None, [VirtualArray_key evicted_view \<mapsto> sample_array])"
    by (simp add: with_dict_def dict_setitem_def)
  from lookup_failure_rematerializes [OF h1 h2 h3] h4 h5
  have "fst (VirtualArray_array ?env evicted_view) = Inr sample_array"
    and "gen_calls (snd (VirtualArray_array ?env evicted_view)) = gen_calls evicted_view + 1"
    by blast+
  then show ?thesis by (simp add: evicted_view_def)
qed

text \<open>
  C8. Over a dict cache or no cache, with a generator whose next output passes validation:
  the first access of \<open>array\<close> (nothing is held) calls the generator exactly once,
  returns its array and leaves the view materialized; an access when the view holds a
  key whose cache entry has been deleted calls the generator exactly once more; and an
  access of a materialized view (an array held directly, or a key whose cache entry is
  present) returns the array and leaves the view, and with it the number of generator
  calls, unchanged.
\<close>

theorem generator_invocations:
  "(held_array v = Nothing \<and> valid_output (with_dict gen conv) v = Some arr \<longrightarrow>
      (\<exists>v'. VirtualArray_array (with_dict gen conv) v = (Inr arr, v')
         \<and> gen_calls v' = gen_calls v + 1 \<and> ismaterialized v' = Inr True))
   \<and> (cache v = Some c \<and> held_array v = HeldKey k \<and> k \<notin> dom c
       \<and> valid_output (with_dict gen conv) v = Some arr \<longrightarrow>
      (\<exists>v'. VirtualArray_array (with_dict gen conv) v = (Inr arr, v')
         \<and> gen_calls v' = gen_calls v + 1 \<and> ismaterialized v' = Inr True))
   \<and> (ismaterialized v = Inr True \<longrightarrow>
      (\<exists>a. VirtualArray_array (with_dict gen conv) v = (Inr a, v)))"
proof (intro conjI impI)
  assume a: "held_array v = Nothing \<and> valid_output (with_dict gen conv) v = Some arr"
  show "\<exists>v'. VirtualArray_array (with_dict gen conv) v = (Inr arr, v')
         \<and> gen_calls v' = gen_calls v + 1 \<and> ismaterialized v' = Inr True"
  proof (cases "cache v")
    case None
    with a show ?thesis
      by (simp add: VirtualArray_array_def materialize_valid_no_cache ismaterialized_def)
  next
    case (Some c0)
    with a show ?thesis
      by (simp add: VirtualArray_array_def materialize_valid_dict ismaterialized_def)
  qed
next
  assume a: "cache v = Some c \<and> held_array v = HeldKey k \<and> k \<notin> dom c
       \<and> valid_output (with_dict gen conv) v = Some arr"
  then have miss: "cache_getitem (with_dict gen conv) c k = (Inl KeyError, c)"
    by (auto simp add: with_dict_def dict_getitem_def split: option.splits)
  from a have same: "v\<lparr>cache := Some c\<rparr> = v"
    by simp
  from a miss have "VirtualArray_array (with_dict gen conv) v
      = materialize (with_dict gen conv) (v\<lparr>cache := Some c\<rparr>)"
    by (simp add: lookup_failure)
  then have "VirtualArray_array (with_dict gen conv) v = materialize (with_dict gen conv) v"
    by (simp only: same)
  with a show "\<exists>v'. VirtualArray_array (with_dict gen conv) v = (Inr arr, v')
         \<and> gen_calls v' = gen_calls v + 1 \<and> ismaterialized v' = Inr True"
    by (simp add: materialize_valid_dict ismaterialized_def)
next
  assume "ismaterialized v = Inr True"
  then consider (direct) a where "cache v = None" "held_array v = HeldArray a"
    | (cached) c k where "cache v = Some c" "held_array v = HeldKey k" "k \<in> dom c"
    by (auto simp add: ismaterialized_True)
  then show "\<exists>a. VirtualArray_array (with_dict gen conv) v = (Inr a, v)"
  proof cases
    case direct
    then show ?thesis
      by (simp add: VirtualArray_array_def)
  next
    case cached
    then obtain a where "c k = Some a" by auto
    with cached show ?thesis
      by (simp add: VirtualArray_array_def with_dict_def dict_getitem_def)
  qed
qed


theorem generator_invocations_witness:
  "gen_calls (snd (VirtualArray_array (with_dict (counting_generator sample_array) Inr)
      fresh_view)) = 1
   \<and> gen_calls (snd (VirtualArray_array (with_dict (counting_generator sample_array) Inr)
      evicted_view)) = 2
   \<and> snd (VirtualArray_array (with_dict (counting_generator sample_array) Inr)
      (evicted_view\<lparr>cache := Some [TransientKey 7 \<mapsto> sample_array]\<rparr>))
     = evicted_view\<lparr>cache := Some [TransientKey 7 \<mapsto> sample_array]\<rparr>
   \<and> snd (VirtualArray_array (with_dict (counting_generator sample_array) Inr) fresh_view)
     = evicted_view\<lparr>cache := Some [TransientKey 7 \<mapsto> sample_array]\<rparr>"
proof -
  let ?env = "with_dict (counting_generator sample_array) Inr"
  let ?held = "evicted_view\<lparr>cache := Some [TransientKey 7 \<mapsto> sample_array]\<rparr>"
  have f1: "held_array fresh_view = Nothing \<and> valid_output ?env fresh_view = Some sample_array"
    by (simp add: valid_output_def with_dict_def counting_generator_def validate_def
        fresh_view_def sample_array_def)
  have e1: "cache evicted_view = Some Map.empty
      \<and> held_array evicted_view = HeldKey (TransientKey 7)
      \<and> TransientKey 7 \<notin> dom (Map.empty :: vkey \<rightharpoonup> (string, int list) ndarray)
      \<and> valid_output ?env evicted_view = Some sample_array"
    by (simp add: valid_output_def with_dict_def counting_generator_def validate_def
        evicted_view_def sample_array_def)
  have m1: "ismaterialized ?held = Inr True"
    by (simp add: ismaterialized_def evicted_view_def)
  from generator_invocations [of fresh_view "counting_generator sample_array" Inr sample_array
      Map.empty "TransientKey 7"] f1
  have r1: "gen_calls (snd (VirtualArray_array ?env fresh_view)) = gen_calls fresh_view + 1"
    by auto
  from generator_invocations [of evicted_view "counting_generator sample_array" Inr sample_array
      Map.empty "TransientKey 7"] e1
  have r2: "gen_calls (snd (VirtualArray_array ?env evicted_view)) = gen_calls evicted_view + 1"
    by auto
  from generator_invocations [of ?held "counting_generator sample_array" Inr sample_array
      Map.empty "TransientKey 7"] m1
  have r3: "snd (VirtualArray_array ?env ?held) = ?held"
    by auto
  have first: "snd (VirtualArray_array ?env fresh_view) = ?held"
    by (simp add: VirtualArray_array_def materialize_def with_dict_def counting_generator_def
        validate_def dict_setitem_def VirtualArray_key_def fresh_view_def evicted_view_def
        sample_array_def)
  from r1 r2 r3 first show ?thesis
    by (simp add: fresh_view_def evicted_view_def)
qed

section \<open>Properties of ByteIndexedArray\<close>

lemma div_block: "0 < S \<Longrightarrow> r < S \<Longrightarrow> (r + K * S) div S = (K::nat)"
  by simp

lemma slice_count: "0 < S \<Longrightarrow> off < S \<Longrightarrow> (K * S - off + S - 1) div S = (K::nat)"
proof (cases K)
  case 0
  assume "0 < S" "off < S"
  with 0 show ?thesis by simp
next
  case (Suc n)
  assume S: "0 < S" "off < S"
  define r where "r = S - 1 - off"
  from Suc have "S \<le> K * S" by simp
  with S have eq: "K * S - off + S - 1 = r + K * S"
    unfolding r_def by linarith
  have "r < S" using S by (simp add: r_def)
  with S(1) have "(r + K * S) div S = K"
    by (rule div_block)
  then show ?thesis
    by (simp only: eq)
qed

lemma slice_from_blocks:
  "0 < S \<Longrightarrow> off < S \<Longrightarrow> slice_from (K * S) off S = map (\<lambda>k. off + k * S) [0..<K]"
  using slice_count [of S off K] by (simp add: slice_from_def)

lemma put_seq_nth_distinct:
  "distinct ks \<Longrightarrow> length vs = length ks \<Longrightarrow> i < length ks \<Longrightarrow> ks ! i < length xs
     \<Longrightarrow> put_seq xs ks vs ! (ks ! i) = vs ! i"
proof (induction xs ks vs arbitrary: i rule: put_seq.induct)
  case (1 xs k ks v vs)
  show ?case
  proof (cases i)
    case 0
    with 1 show ?thesis
      by (simp add: put_seq_nth_other)
  next
    case (Suc n)
    with 1 show ?thesis by simp
  qed
qed simp_all

lemma concat_blocks_length:
  "\<forall>b \<in> set bs. length b = S \<Longrightarrow> length (concat bs) = length bs * S"
  by (induction bs) simp_all

lemma concat_blocks_nth:
  "\<forall>b \<in> set bs. length b = S \<Longrightarrow> k < length bs \<Longrightarrow> j < S
     \<Longrightarrow> concat bs ! (k * S + j) = bs ! k ! j"
proof (induction bs arbitrary: k)
  case Nil
  then show ?case by simp
next
  case (Cons b bs)
  show ?case
  proof (cases k)
    case 0
    with Cons.prems show ?thesis by (simp add: nth_append)
  next
    case (Suc n)
    with Cons.prems have "concat bs ! (n * S + j) = bs ! n ! j"
      by (intro Cons.IH) simp_all
    with Suc Cons.prems show ?thesis
      by (simp add: nth_append algebra_simps)
  qed
qed

lemma length_spread: "length (spread S firsts) = length firsts * S"
  by (induction firsts) (simp_all add: spread_def)

lemma spread_nth:
  "k < length firsts \<Longrightarrow> j < S \<Longrightarrow> spread S firsts ! (k * S + j) = firsts ! k + int j"
  unfolding spread_def
  by (subst concat_blocks_nth [where S = S]) auto

lemma block_bound: "k < K \<Longrightarrow> j < S \<Longrightarrow> k * S + j < K * (S::nat)"
proof -
  assume "k < K" "j < S"
  then have "k * S + j < Suc k * S" by simp
  also have "\<dots> \<le> K * S"
    using \<open>k < K\<close> by (intro mult_le_mono1) simp
  finally show ?thesis .
qed

lemma block_unique:
  assumes "j < S" "j' < S" "k * S + j = k' * S + (j'::nat)"
  shows "j = j'"
proof -
  from assms(3) have "(k * S + j) mod S = (k' * S + j') mod S" by simp
  with assms(1,2) show ?thesis by simp
qed

lemma distinct_positions: "0 < S \<Longrightarrow> distinct (map (\<lambda>k. off + k * S) [0..<K::nat])"
  by (simp add: distinct_map inj_on_def)

lemma firsts_of_blocks:
  assumes "length firsts = K" and "\<forall>k<K. xs ! (k * S) = firsts ! k"
  shows "map ((!) xs) (map (\<lambda>k. 0 + k * S) [0..<K]) = firsts"
  using assms by (simp add: list_eq_iff_nth_eq)

lemma set_offset_step:
  assumes S: "0 < S" and len: "length firsts = K" "length xs = K * S"
      and m: "1 \<le> m" "m < S"
      and inv: "\<forall>k<K. \<forall>j<m. xs ! (k * S + j) = firsts ! k + int j"
  shows "\<exists>ys. np_get_slice xs 0 S = Inr firsts
           \<and> np_set_slice xs m S (map (\<lambda>f. f + int m) firsts) = Inr ys
           \<and> length ys = K * S
           \<and> (\<forall>k<K. \<forall>j<Suc m. ys ! (k * S + j) = firsts ! k + int j)"
proof -
  let ?P = "map (\<lambda>k. m + k * S) [0..<K]"
  let ?vals = "map (\<lambda>f. f + int m) firsts"
  let ?ys = "put_seq xs ?P ?vals"
  have first: "\<forall>k<K. xs ! (k * S) = firsts ! k"
    using inv m by force
  have get: "np_get_slice xs 0 S = Inr firsts"
    using S len firsts_of_blocks [OF len(1) first]
    by (simp add: np_get_slice_def slice_from_blocks)
  have set: "np_set_slice xs m S ?vals = Inr ?ys"
    using S m len by (simp add: np_set_slice_def slice_from_blocks np_broadcast_def)
  have at: "?ys ! (k * S + m) = firsts ! k + int m" if "k < K" for k
  proof -
    have "?ys ! (?P ! k) = ?vals ! k"
      using that len S m block_bound [of k K m S]
      by (intro put_seq_nth_distinct) (simp_all add: distinct_positions add.commute)
    with that len show ?thesis by (simp add: add.commute)
  qed
  have other: "?ys ! (k * S + j) = firsts ! k + int j" if "k < K" "j < m" for k j
  proof -
    have "k * S + j \<notin> set ?P"
    proof
      assume "k * S + j \<in> set ?P"
      then obtain k' where "k * S + j = k' * S + m" by (auto simp add: add.commute)
      with that m block_unique [of j S m k k'] show False by simp
    qed
    then have "?ys ! (k * S + j) = xs ! (k * S + j)"
      by (rule put_seq_nth_other)
    with inv that show ?thesis by simp
  qed
  have "\<forall>k<K. \<forall>j<Suc m. ?ys ! (k * S + j) = firsts ! k + int j"
    using at other by (auto simp add: less_Suc_eq)
  with get set show ?thesis
    by (simp add: length_put_seq len)
qed

lemma fill_offsets_blocks:
  assumes "0 < S" "length firsts = K" "length xs = K * S" "1 \<le> m" "m \<le> S"
      and "\<forall>k<K. \<forall>j<m. xs ! (k * S + j) = firsts ! k + int j"
  shows "\<exists>ys. fill_offsets xs S [m..<S] = Inr ys \<and> length ys = K * S
           \<and> (\<forall>k<K. \<forall>j<S. ys ! (k * S + j) = firsts ! k + int j)"
  using assms
proof (induction "S - m" arbitrary: m xs)
  case 0
  then have "m = S" by simp
  with 0 show ?case by simp
next
  case (Suc d)
  then have m: "m < S" by simp
  from set_offset_step [OF Suc.prems(1,2,3,4) m Suc.prems(6)]
  obtain ys where get: "np_get_slice xs 0 S = Inr firsts"
    and set: "np_set_slice xs m S (map (\<lambda>f. f + int m) firsts) = Inr ys"
    and len: "length ys = K * S"
    and inv: "\<forall>k<K. \<forall>j<Suc m. ys ! (k * S + j) = firsts ! k + int j"
    by blast
  have "d = S - Suc m" using Suc.hyps(2) by simp
  from Suc.hyps(1) [OF this Suc.prems(1,2) len _ _ inv] m
  obtain zs where "fill_offsets ys S [Suc m..<S] = Inr zs" "length zs = K * S"
    "\<forall>k<K. \<forall>j<S. zs ! (k * S + j) = firsts ! k + int j"
    by auto
  with get set m show ?case
    by (simp add: upt_conv_Cons)
qed

lemma blocks_eq_spread:
  assumes "0 < S" "length ys = length firsts * S"
      and "\<forall>k<length firsts. \<forall>j<S. ys ! (k * S + j) = firsts ! k + int j"
  shows "ys = spread S firsts"
proof (rule nth_equalityI)
  show "length ys = length (spread S firsts)"
    using assms by (simp add: length_spread)
next
  fix i assume i: "i < length ys"
  let ?k = "i div S" and ?j = "i mod S"
  have k: "?k < length firsts"
    using i assms(1,2) by (simp add: less_mult_imp_div_less)
  have j: "?j < S" using assms(1) by simp
  from assms(3) k j have "ys ! (?k * S + ?j) = firsts ! ?k + int ?j"
    by blast
  moreover from k j have "spread S firsts ! (?k * S + ?j) = firsts ! ?k + int ?j"
    by (rule spread_nth)
  ultimately have "ys ! (?k * S + ?j) = spread S firsts ! (?k * S + ?j)"
    by (simp only:)
  then show "ys ! i = spread S firsts ! i"
    by (simp only: div_mult_mod_eq)
qed

lemma byte_positions_spread:
  assumes S: "0 < S" and len: "length firsts = K"
  shows "byte_positions junk K S firsts = Inr (spread S firsts)"
proof -
  let ?e = "numpy_empty junk (K * S)"
  let ?P = "map (\<lambda>k. 0 + k * S) [0..<K]"
  let ?xs = "put_seq ?e ?P firsts"
  have set: "np_set_slice ?e 0 S firsts = Inr ?xs"
    using S len by (simp add: np_set_slice_def numpy_empty_def slice_from_blocks np_broadcast_def)
  have lenx: "length ?xs = K * S"
    by (simp add: length_put_seq numpy_empty_def)
  have first: "?xs ! (k * S + j) = firsts ! k + int j" if "k < K" "j < 1" for k j
  proof -
    have "?xs ! (?P ! k) = firsts ! k"
      using that len S block_bound [of k K 0 S] distinct_positions [of S 0 K]
      by (intro put_seq_nth_distinct) (simp_all add: numpy_empty_def)
    with that show ?thesis by simp
  qed
  have "1 \<le> S" using S by simp
  from fill_offsets_blocks [OF S len lenx _ this] first
  obtain ys where ys: "fill_offsets ?xs S [1..<S] = Inr ys" "length ys = K * S"
    "\<forall>k<K. \<forall>j<S. ys ! (k * S + j) = firsts ! k + int j"
    by auto
  then have "ys = spread S firsts"
    using S len by (intro blocks_eq_spread) simp_all
  with set ys(1) show ?thesis
    by (simp add: byte_positions_def)
qed

lemma arange_blocks: "0 < S \<Longrightarrow> arange (K * S) S = map (\<lambda>k. int (k * S)) [0..<K]"
proof -
  assume S: "0 < S"
  have "K * S + S - 1 = (S - 1) + K * S" using S by simp
  moreover have "((S - 1) + K * S) div S = K"
    using S by (intro div_block) simp_all
  ultimately show ?thesis by (simp add: arange_def)
qed

lemma spread_arange:
  assumes "0 < S"
  shows "spread S (map (\<lambda>k. int (k * S)) [0..<K]) = map int [0..<K * S]"
proof (rule sym, rule blocks_eq_spread [OF assms])
  show "length (map int [0..<K * S]) = length (map (\<lambda>k. int (k * S)) [0..<K]) * S"
    by simp
  show "\<forall>k<length (map (\<lambda>k. int (k * S)) [0..<K]). \<forall>j<S.
          map int [0..<K * S] ! (k * S + j) = map (\<lambda>k. int (k * S)) [0..<K] ! k + int j"
    using block_bound [of _ K _ S] by simp
qed

lemma put_seq_upt:
  assumes "length xs = n" "length vs = n"
  shows "put_seq xs [0..<n] vs = vs"
proof (rule nth_equalityI)
  show "length (put_seq xs [0..<n] vs) = length vs"
    using assms by (simp add: length_put_seq)
next
  fix i assume "i < length (put_seq xs [0..<n] vs)"
  then have i: "i < n" using assms by (simp add: length_put_seq)
  have "put_seq xs [0..<n] vs ! ([0..<n] ! i) = vs ! i"
    using assms i by (intro put_seq_nth_distinct) simp_all
  with i show "put_seq xs [0..<n] vs ! i = vs ! i" by simp
qed

lemma scatter_in_order:
  assumes "length hold = n" "length bytes = n"
  shows "np_setitem hold (Many (map int [0..<n])) (NdArray bytes) = Inr bytes"
proof -
  have "norm_all (length hold) (map int [0..<n]) = Inr (map nat (map int [0..<n]))"
    using assms by (intro norm_all_nonneg) auto
  also have "map nat (map int [0..<n]) = [0..<n]"
    by (simp add: map_idI)
  finally show ?thesis
    using assms by (simp add: np_setitem_def np_broadcast_def put_seq_upt)
qed

lemma take_drop_block:
  "\<forall>b \<in> set bs. length b = S \<Longrightarrow> k < length bs \<Longrightarrow> take S (drop (k * S) (concat bs)) = bs ! k"
proof (induction bs arbitrary: k)
  case Nil
  then show ?case by simp
next
  case (Cons b bs)
  show ?case
  proof (cases k)
    case 0
    with Cons.prems show ?thesis by simp
  next
    case (Suc n)
    with Cons.prems have "take S (drop (n * S) (concat bs)) = bs ! n"
      by (intro Cons.IH) simp_all
    with Suc Cons.prems show ?thesis by simp
  qed
qed

lemma values_of_blocks:
  assumes "\<forall>b \<in> set bs. length b = itemsize dt"
  shows "values_of dt (length bs) (concat bs) = map (decode dt) bs"
proof (rule nth_equalityI)
  show "length (values_of dt (length bs) (concat bs)) = length (map (decode dt) bs)"
    by (simp add: values_of_def)
next
  fix k assume "k < length (values_of dt (length bs) (concat bs))"
  then have k: "k < length bs" by (simp add: values_of_def)
  with assms show "values_of dt (length bs) (concat bs) ! k = map (decode dt) bs ! k"
    by (simp add: values_of_def take_drop_block)
qed

lemma bytes_at:
  assumes "0 \<le> o'" "nat o' + S \<le> length buf"
  shows "map (\<lambda>j. buf ! nat (o' + int j)) [0..<S] = take S (drop (nat o') buf)"
proof (rule nth_equalityI)
  show "length (map (\<lambda>j. buf ! nat (o' + int j)) [0..<S]) = length (take S (drop (nat o') buf))"
    using assms by simp
next
  fix j assume "j < length (map (\<lambda>j. buf ! nat (o' + int j)) [0..<S])"
  then have j: "j < S" by simp
  with assms have "nat (o' + int j) = nat o' + j" by simp
  with j assms show "map (\<lambda>j. buf ! nat (o' + int j)) [0..<S] ! j = take S (drop (nat o') buf) ! j"
    by simp
qed

lemma gather_spread:
  assumes "\<forall>s \<in> set starts. 0 \<le> s \<and> s + int S \<le> int (length buf)"
  shows "np_take buf (spread S starts)
           = Inr (concat (map (\<lambda>s. take S (drop (nat s) buf)) starts))"
proof -
  have range: "\<forall>i \<in> set (spread S starts). 0 \<le> i \<and> i < int (length buf)"
    using assms by (fastforce simp add: spread_def)
  have "map ((!) buf) (map nat (spread S starts))
      = concat (map (\<lambda>s. map (\<lambda>j. buf ! nat (s + int j)) [0..<S]) starts)"
    by (simp add: spread_def map_concat comp_def)
  also have "\<dots> = concat (map (\<lambda>s. take S (drop (nat s) buf)) starts)"
  proof -
    have "map (\<lambda>s. map (\<lambda>j. buf ! nat (s + int j)) [0..<S]) starts
        = map (\<lambda>s. take S (drop (nat s) buf)) starts"
    proof (rule map_cong [OF refl])
      fix s assume "s \<in> set starts"
      with assms have "0 \<le> s" "nat s + S \<le> length buf" by auto
      then show "map (\<lambda>j. buf ! nat (s + int j)) [0..<S] = take S (drop (nat s) buf)"
        by (rule bytes_at)
    qed
    then show ?thesis by (rule arg_cong)
  qed
  finally show ?thesis
    using norm_all_nonneg [OF range] by (simp add: np_take_def)
qed

lemma read_many_values:
  assumes S: "0 < itemsize (dtype a)"
      and range: "\<forall>s \<in> set starts. 0 \<le> s \<and> s + int (itemsize (dtype a)) \<le> int (length (content a))"
  shows "read_many junk a starts = Inr (map (value_at a) starts)"
proof (cases "starts = []")
  case True
  then show ?thesis by (simp add: read_many_def)
next
  case False
  let ?S = "itemsize (dtype a)" and ?K = "length starts"
  let ?blocks = "map (\<lambda>s. take ?S (drop (nat s) (content a))) starts"
  have contidx: "byte_positions (junk_contidx junk) ?K ?S starts = Inr (spread ?S starts)"
    using S by (intro byte_positions_spread) simp_all
  have ar: "arange (?K * ?S) ?S = map (\<lambda>k. int (k * ?S)) [0..<?K]"
    using S by (rule arange_blocks)
  have "byte_positions (junk_holdidx junk) ?K ?S (map (\<lambda>k. int (k * ?S)) [0..<?K])
      = Inr (spread ?S (map (\<lambda>k. int (k * ?S)) [0..<?K]))"
    using S by (intro byte_positions_spread) simp_all
  then have holdidx: "byte_positions (junk_holdidx junk) ?K ?S (arange (?K * ?S) ?S)
      = Inr (map int [0..<?K * ?S])"
    by (simp only: ar spread_arange [OF S])
  have gather: "np_take (content a) (spread ?S starts) = Inr (concat ?blocks)"
    using range by (rule gather_spread)
  have sizes: "\<forall>b \<in> set ?blocks. length b = ?S"
    using range by auto
  then have len: "length (concat ?blocks) = ?K * ?S"
    using concat_blocks_length [of ?blocks ?S] by simp
  have scatter: "np_setitem (numpy_empty (junk_hold junk) (?K * ?S))
      (Many (map int [0..<?K * ?S])) (NdArray (concat ?blocks)) = Inr (concat ?blocks)"
    using len by (intro scatter_in_order) (simp_all add: numpy_empty_def)
  have "values_of (dtype a) ?K (concat ?blocks) = map (decode (dtype a)) ?blocks"
    using values_of_blocks [OF sizes] by simp
  also have "\<dots> = map (value_at a) starts"
    by (simp add: value_at_def comp_def)
  finally show ?thesis
    using False contidx holdidx gather scatter by (simp add: read_many_def)
qed

lemma read_one_value:
  assumes S: "0 < itemsize (dtype a)"
      and range: "0 \<le> s" "s + int (itemsize (dtype a)) \<le> int (length (content a))"
  shows "read_one a s = Inr (value_at a s)"
proof -
  let ?S = "itemsize (dtype a)"
  define pos where "pos = s div int ?S"
  define offset where "offset = s mod int ?S"
  have pos: "0 \<le> pos" using S range by (simp add: pos_def pos_imp_zdiv_nonneg_iff)
  have off: "0 \<le> offset" "offset < int ?S" using S by (simp_all add: offset_def)
  have s: "s = offset + pos * int ?S" by (simp add: pos_def offset_def)
  have fits: "offset + (pos + 1) * int ?S \<le> int (length (content a))"
    using range s by (simp add: algebra_simps)
  have olen: "offset \<le> int (length (content a))"
  proof -
    have "0 \<le> (pos + 1) * int ?S" using pos by simp
    with fits show ?thesis by linarith
  qed
  have buf: "np_frombuffer (content a) (dtype a) (pos + 1) offset
      = Inr (values_of (dtype a) (nat (pos + 1)) (drop (nat offset) (content a)))"
    using S pos off olen fits by (simp add: np_frombuffer_def algebra_simps)
  have at: "np_getitem (values_of (dtype a) (nat (pos + 1)) (drop (nat offset) (content a))) pos
      = Inr (values_of (dtype a) (nat (pos + 1)) (drop (nat offset) (content a)) ! nat pos)"
    using pos by (intro np_getitem_nonneg) (simp_all add: values_of_def)
  have "values_of (dtype a) (nat (pos + 1)) (drop (nat offset) (content a)) ! nat pos
      = decode (dtype a) (take ?S (drop (nat pos * ?S) (drop (nat offset) (content a))))"
    using pos by (simp add: values_of_def)
  also have "drop (nat pos * ?S) (drop (nat offset) (content a))
      = drop (nat offset + nat pos * ?S) (content a)"
    by (simp add: add.commute)
  also have "nat offset + nat pos * ?S = nat s"
    using pos off s by (simp add: nat_add_distrib nat_mult_distrib)
  finally have "values_of (dtype a) (nat (pos + 1)) (drop (nat offset) (content a)) ! nat pos
      = value_at a s"
    by (simp add: value_at_def)
  with buf at show ?thesis
    by (simp add: read_one_def Let_def pos_def [symmetric] offset_def [symmetric])
qed

lemma np_take_subset: "np_take xs is = Inr js \<Longrightarrow> set js \<subseteq> set xs"
proof -
  assume "np_take xs is = Inr js"
  then obtain ks where ks: "norm_all (length xs) is = Inr ks" and js: "js = map ((!) xs) ks"
    by (auto simp add: np_take_def split: sum.splits)
  have "k < length xs" if "k \<in> set ks" for k
    using norm_all_set [OF ks that] by (auto simp add: norm_index_def split: if_splits)
  with js show ?thesis by auto
qed

text \<open>
  C1, as the code has it. For every itemsize of at least one and every array of offsets
  that each satisfy \<open>0 \<le> o\<close> and \<open>o + S \<le>\<close> the length of the buffer (unaligned,
  overlapping or repeated as they may be), the batched read returns, position by
  position, the values that the scalar reads return, whatever the uninitialised scratch
  arrays hold: this for the read of all offsets and for the read of any selection of them
  by a non-empty integer array. With no offsets the batched read returns the empty
  array. A read is a function of the view: it writes nothing.
\<close>

theorem batch_read_agrees:
  assumes "0 < itemsize (dtype a)"
      and "\<forall>s \<in> set (index a). 0 \<le> s \<and> s + int (itemsize (dtype a)) \<le> int (length (content a))"
  shows "ByteIndexedArray_getitem cols junk a (Pos All) = Inr (Arr (map (value_at a) (index a)))
       \<and> (\<forall>p < length (index a).
            ByteIndexedArray_getitem cols junk a (Pos (At (int p)))
              = Inr (Item (map (value_at a) (index a) ! p)))
       \<and> (\<forall>is js. is \<noteq> [] \<and> np_take (index a) is = Inr js \<longrightarrow>
            ByteIndexedArray_getitem cols junk a (Pos (Fancy is))
              = Inr (Arr (map (value_at a) js))
            \<and> (\<forall>q < length js. \<exists>p < length (index a). js ! q = index a ! p
                 \<and> ByteIndexedArray_getitem cols junk a (Pos (At (int p)))
                      = Inr (Item (map (value_at a) js ! q))))
       \<and> (index a = [] \<longrightarrow> ByteIndexedArray_getitem cols junk a (Pos All) = Inr (Arr []))"
proof -
  have all: "ByteIndexedArray_getitem cols junk a (Pos All)
      = Inr (Arr (map (value_at a) (index a)))"
    using assms
    by (simp add: ByteIndexedArray_getitem_def isstring_def np_index_def np_select_def
        read_many_values)
  have one: "ByteIndexedArray_getitem cols junk a (Pos (At (int p)))
      = Inr (Item (value_at a (index a ! p)))" if "p < length (index a)" for p
  proof -
    from that have "index a ! p \<in> set (index a)" by simp
    with assms have "read_one a (index a ! p) = Inr (value_at a (index a ! p))"
      by (intro read_one_value) auto
    with that show ?thesis
      by (simp add: ByteIndexedArray_getitem_def isstring_def np_index_def np_select_def
          np_getitem_nonneg)
  qed
  have fancy: "ByteIndexedArray_getitem cols junk a (Pos (Fancy is))
      = Inr (Arr (map (value_at a) js))" if "is \<noteq> []" "np_take (index a) is = Inr js" for "is" js
  proof -
    from np_take_subset [OF that(2)] assms(2)
    have "\<forall>s \<in> set js. 0 \<le> s \<and> s + int (itemsize (dtype a)) \<le> int (length (content a))"
      by blast
    with assms(1) have "read_many junk a js = Inr (map (value_at a) js)"
      by (rule read_many_values)
    with that show ?thesis
      by (simp add: ByteIndexedArray_getitem_def isstring_def np_index_def np_select_def)
  qed
  have each: "\<exists>p < length (index a). js ! q = index a ! p
      \<and> ByteIndexedArray_getitem cols junk a (Pos (At (int p)))
           = Inr (Item (map (value_at a) js ! q))"
    if "np_take (index a) is = Inr js" "q < length js" for "is" js q
  proof -
    from np_take_subset [OF that(1)] that(2) have "js ! q \<in> set (index a)"
      by (meson nth_mem subsetD)
    then obtain p where "p < length (index a)" "index a ! p = js ! q"
      by (auto simp add: in_set_conv_nth)
    with one [of p] that(2) show ?thesis by auto
  qed
  show ?thesis
    using all one fancy each by simp blast
qed

theorem batch_read_agrees_witness:
  "ByteIndexedArray_getitem plain_fields no_junk sample_bytes (Pos All)
     = Inr (Arr [513, 1284, 770, 1541, 770])
   \<and> ByteIndexedArray_getitem plain_fields no_junk sample_bytes (Pos (At 3)) = Inr (Item 1541)
   \<and> ByteIndexedArray_getitem plain_fields no_junk sample_bytes (Pos (Fancy [3, 0]))
     = Inr (Arr [1541, 513])"
proof -
  have S: "0 < itemsize (dtype sample_bytes)"
    by (simp add: sample_bytes_def uint16_def)
  have range: "\<forall>s \<in> set (index sample_bytes).
      0 \<le> s \<and> s + int (itemsize (dtype sample_bytes)) \<le> int (length (content sample_bytes))"
    by (simp add: sample_bytes_def uint16_def)
  have vals: "map (value_at sample_bytes) (index sample_bytes) = [513, 1284, 770, 1541, 770]"
    by (simp add: value_at_def sample_bytes_def uint16_def)
  have sel: "[3, 0 :: int] \<noteq> [] \<and> np_take (index sample_bytes) [3, 0] = Inr [4, 0]"
    by (simp add: np_take_def norm_index_def sample_bytes_def)
  have vals': "map (value_at sample_bytes) [4, 0] = [1541, 513]"
    by (simp add: value_at_def sample_bytes_def uint16_def)
  have three: "(3::nat) < length (index sample_bytes)"
    by (simp add: sample_bytes_def)
  note inst = batch_read_agrees [OF S range, of plain_fields no_junk]
  from inst vals
  have a: "ByteIndexedArray_getitem plain_fields no_junk sample_bytes (Pos All)
      = Inr (Arr [513, 1284, 770, 1541, 770])"
    by simp
  from inst three
  have "ByteIndexedArray_getitem plain_fields no_junk sample_bytes (Pos (At (int 3)))
      = Inr (Item (map (value_at sample_bytes) (index sample_bytes) ! 3))"
    by blast
  with vals
  have b: "ByteIndexedArray_getitem plain_fields no_junk sample_bytes (Pos (At 3))
      = Inr (Item 1541)"
    by simp
  from inst sel
  have "ByteIndexedArray_getitem plain_fields no_junk sample_bytes (Pos (Fancy [3, 0]))
      = Inr (Arr (map (value_at sample_bytes) [4, 0]))"
    by blast
  with vals'
  have c: "ByteIndexedArray_getitem plain_fields no_junk sample_bytes (Pos (Fancy [3, 0]))
      = Inr (Arr [1541, 513])"
    by simp
  from a b c show ?thesis
    by simp
qed

text \<open>
  A negative offset: \<open>-1\<close> with itemsize 2 and a buffer of four bytes satisfies
  \<open>o + S \<le> 4\<close>. The batched read indexes the buffer with \<open>-1\<close> and \<open>0\<close> and
  decodes its last byte followed by its first (40 + 256 * 10); the scalar read computes
  \<open>divmod(-1, 2) = (-1, 1)\<close>, asks \<open>frombuffer\<close> for \<open>count = 0\<close> values and
  indexes the empty result with \<open>-1\<close>. And a selection of no offsets by the empty integer
  array is taken by the string branch: it returns a view of the same offsets over the
  empty selection of the buffer, not an empty array of values.
\<close>

theorem batch_read_agrees_counterexample:
  "ByteIndexedArray_getitem plain_fields no_junk
      \<lparr>index = [- 1], content = [10, 20, 30, 40], writeable = True, dtype = uint16\<rparr> (Pos All)
     = Inr (Arr [2600])
   \<and> ByteIndexedArray_getitem plain_fields no_junk
      \<lparr>index = [- 1], content = [10, 20, 30, 40], writeable = True, dtype = uint16\<rparr>
      (Pos (At 0))
     = Inl IndexError
   \<and> ByteIndexedArray_getitem plain_fields no_junk sample_bytes (Pos (Fancy []))
     = Inr (ByteIndexedView
         \<lparr>index = [0, 3, 1, 4, 1], content = [], writeable = True, dtype = uint16\<rparr>)"
proof -
  let ?a = "\<lparr>index = [- 1], content = [10, 20, 30, 40], writeable = True, dtype = uint16\<rparr>"
  have contidx: "byte_positions (junk_contidx no_junk) 1 2 [- 1] = Inr [- 1, 0]"
    using byte_positions_spread [of 2 "[- 1]" 1 "junk_contidx no_junk"]
    by (simp add: spread_def upt_conv_Cons)
  have holdidx: "byte_positions (junk_holdidx no_junk) 1 2 (arange 2 2) = Inr [0, 1]"
    using byte_positions_spread [of 2 "arange 2 2" 1 "junk_holdidx no_junk"]
    by (simp add: spread_def arange_def upt_conv_Cons)
  have gather: "np_take [10, 20, 30, 40 :: byte] [- 1, 0] = Inr [40, 10]"
    by (simp add: np_take_def norm_index_def)
  have scatter: "np_setitem (numpy_empty (junk_hold no_junk) 2) (Many [0, 1])
      (NdArray [40, 10 :: byte]) = Inr [40, 10]"
    by (simp add: np_setitem_def np_broadcast_def norm_index_def numpy_empty_def
        upt_conv_Cons)
  have vals: "values_of uint16 1 [40, 10] = [2600]"
    by (simp add: values_of_def uint16_def)
  have "read_many no_junk ?a [- 1] = Inr [2600]"
    using contidx holdidx gather scatter vals
    by (simp add: read_many_def uint16_def)
  then have batch: "ByteIndexedArray_getitem plain_fields no_junk ?a (Pos All) = Inr (Arr [2600])"
    by (simp add: ByteIndexedArray_getitem_def isstring_def np_index_def np_select_def)
  have scalar: "ByteIndexedArray_getitem plain_fields no_junk ?a (Pos (At 0)) = Inl IndexError"
    by (simp add: ByteIndexedArray_getitem_def isstring_def np_index_def np_select_def
        np_getitem_def norm_index_def read_one_def np_frombuffer_def values_of_def uint16_def)
  have empty: "ByteIndexedArray_getitem plain_fields no_junk sample_bytes (Pos (Fancy []))
     = Inr (ByteIndexedView
         \<lparr>index = [0, 3, 1, 4, 1], content = [], writeable = True, dtype = uint16\<rparr>)"
    by (simp add: ByteIndexedArray_getitem_def isstring_def column_def np_select_def
        np_take_def sel_list_def sample_bytes_def)
  from batch scalar empty show ?thesis by simp
qed

end
